theory Spec2Isabelle
  imports Complex_Main "HOL-Library.Word" "HOL-Library.AList"
begin

unbundle bit_operations_syntax

section \<open>Python values, exceptions and strings\<close>

text \<open>
  The notebook \<^verbatim>\<open>coinbase-auth-playground.ipynb\<close> defines three functions:
  \<^verbatim>\<open>cb_connect\<close>, \<^verbatim>\<open>cb_get_all_accounts\<close> and \<^verbatim>\<open>cb_get_all_orders\<close>.
  They are embedded below, together with the fragment of Python and of the libraries
  (\<^verbatim>\<open>hmac\<close>, \<^verbatim>\<open>hashlib\<close>, \<^verbatim>\<open>requests\<close>, \<^verbatim>\<open>json\<close>, \<^verbatim>\<open>pandas\<close>) that decides how they behave.

  A Python \<^verbatim>\<open>str\<close> is represented by its UTF-8 encoding, one \<^typ>\<open>char\<close> per byte, so
  \<^verbatim>\<open>.encode('utf-8')\<close> only changes the type. Concatenation and splitting at the ASCII
  character \<^verbatim>\<open>?\<close> commute with that encoding. A \<^verbatim>\<open>str\<close> that holds a lone surrogate has
  no UTF-8 encoding; it is represented for the secret (see \<open>env_str\<close> below), which comes
  from the process environment, and not for paths, cursors and texts.

  A value produced by \<^verbatim>\<open>json.loads\<close> is a \<open>pyval\<close>; a dict is an association list in
  insertion order, with distinct keys. A float is a rational number or one of the three
  non-finite values. Of the limits of the interpreter, the two that \<^verbatim>\<open>json.loads\<close> can
  meet on a text are modelled (see \<open>body\<close> below); the limit on memory is not.
\<close>

datatype pyfloat = Finite rat | NaN | Infinity | Neg_Infinity

datatype pyval =
    PNone
  | PBool bool
  | PInt int
  | PFloat pyfloat
  | PStr string
  | PList "pyval list"
  | PDict "(string \<times> pyval) list"

text \<open>The exceptions that the three functions can meet, one constructor per Python class.
  \<open>Requests_HTTPError\<close> is \<^verbatim>\<open>requests.exceptions.HTTPError\<close> and \<open>Urllib_HTTPError\<close> is
  \<^verbatim>\<open>urllib.error.HTTPError\<close>: two unrelated classes with the same short name.\<close>

datatype exn =
    AttributeError
  | UnicodeEncodeError
  | TypeError
  | KeyError string
  | ValueError
  | RecursionError
  | UnboundLocalError
  | JSONDecodeError
  | ConnectionError
  | Timeout
  | Requests_HTTPError nat
  | Urllib_HTTPError nat

text \<open>\<^verbatim>\<open>bool(x)\<close>, as the \<^verbatim>\<open>while has_next:\<close> test applies it.\<close>

fun truthy :: "pyval \<Rightarrow> bool" where
  "truthy PNone = False"
| "truthy (PBool b) = b"
| "truthy (PInt i) = (i \<noteq> 0)"
| "truthy (PFloat x) = (x \<noteq> Finite 0)"
| "truthy (PStr s) = (s \<noteq> [])"
| "truthy (PList xs) = (xs \<noteq> [])"
| "truthy (PDict d) = (d \<noteq> [])"

text \<open>\<^verbatim>\<open>js[key]\<close> with a string key: only a dict can be subscripted by a string.\<close>

fun getitem :: "pyval \<Rightarrow> string \<Rightarrow> exn + pyval" where
  "getitem (PDict d) key = (case map_of d key of None \<Rightarrow> Inl (KeyError key) | Some v \<Rightarrow> Inr v)"
| "getitem v key = Inl TypeError"

text \<open>\<^verbatim>\<open>str(n)\<close> for an integer: decimal digits, most significant first, with a minus sign
  for a negative number.\<close>

definition digit_char :: "nat \<Rightarrow> char" where
  "digit_char d = ''0123456789'' ! d"

fun digits :: "nat \<Rightarrow> string" where
  "digits n = (if n < 10 then [digit_char n] else digits (n div 10) @ [digit_char (n mod 10)])"

declare digits.simps [simp del]

definition str_int :: "int \<Rightarrow> string" where
  "str_int i = (if i < 0 then CHR ''-'' # digits (nat (- i)) else digits (nat i))"

text \<open>\<^verbatim>\<open>s.split(c)\<close> for a one-character separator.\<close>

fun py_split :: "char \<Rightarrow> string \<Rightarrow> string list" where
  "py_split c [] = [[]]"
| "py_split c (x # xs) =
     (if x = c then [] # py_split c xs
      else (case py_split c xs of [] \<Rightarrow> [[x]] | w # ws \<Rightarrow> (x # w) # ws))"

text \<open>A \<^verbatim>\<open>str\<close> read from the process environment. \<^verbatim>\<open>os.environ\<close> decodes the bytes of
  a variable with the error handler \<^verbatim>\<open>surrogateescape\<close>, so bytes that are not UTF-8 come
  back as lone surrogates. \<open>Str s\<close> is a \<^verbatim>\<open>str\<close> without lone surrogates, given by its UTF-8
  encoding \<open>s\<close>; \<open>Lone_surrogates\<close> is a \<^verbatim>\<open>str\<close> that holds a lone surrogate. All that
  the notebook does with such a string is to encode it.\<close>

datatype env_str = Str string | Lone_surrogates

section \<open>The standard library: hashlib.sha256, hmac, bytes.hex\<close>

text \<open>
  \<^verbatim>\<open>hmac.new(key, msg, digestmod=hashlib.sha256).digest()\<close> is HMAC (RFC 2104) over
  SHA-256 (FIPS 180-4). Both are written out, so that a signature can be computed. The
  round constants and the initial hash value are given in decimal.
\<close>

type_synonym byte = "8 word"
type_synonym w32 = "32 word"

definition rotr :: "nat \<Rightarrow> w32 \<Rightarrow> w32" where
  "rotr n x = drop_bit n x OR push_bit (32 - n) x"

definition Ch :: "w32 \<Rightarrow> w32 \<Rightarrow> w32 \<Rightarrow> w32" where
  "Ch x y z = (x AND y) XOR (NOT x AND z)"

definition Maj :: "w32 \<Rightarrow> w32 \<Rightarrow> w32 \<Rightarrow> w32" where
  "Maj x y z = (x AND y) XOR (x AND z) XOR (y AND z)"

definition bsig0 :: "w32 \<Rightarrow> w32" where
  "bsig0 x = rotr 2 x XOR rotr 13 x XOR rotr 22 x"

definition bsig1 :: "w32 \<Rightarrow> w32" where
  "bsig1 x = rotr 6 x XOR rotr 11 x XOR rotr 25 x"

definition ssig0 :: "w32 \<Rightarrow> w32" where
  "ssig0 x = rotr 7 x XOR rotr 18 x XOR drop_bit 3 x"

definition ssig1 :: "w32 \<Rightarrow> w32" where
  "ssig1 x = rotr 17 x XOR rotr 19 x XOR drop_bit 10 x"

definition sha256_K :: "w32 list" where
  "sha256_K =
   [1116352408, 1899447441, 3049323471, 3921009573, 961987163, 1508970993,
    2453635748, 2870763221, 3624381080, 310598401, 607225278, 1426881987,
    1925078388, 2162078206, 2614888103, 3248222580, 3835390401, 4022224774,
    264347078, 604807628, 770255983, 1249150122, 1555081692, 1996064986,
    2554220882, 2821834349, 2952996808, 3210313671, 3336571891, 3584528711,
    113926993, 338241895, 666307205, 773529912, 1294757372, 1396182291,
    1695183700, 1986661051, 2177026350, 2456956037, 2730485921, 2820302411,
    3259730800, 3345764771, 3516065817, 3600352804, 4094571909, 275423344,
    430227734, 506948616, 659060556, 883997877, 958139571, 1322822218,
    1537002063, 1747873779, 1955562222, 2024104815, 2227730452, 2361852424,
    2428436474, 2756734187, 3204031479, 3329325298]"

definition sha256_H0 :: "w32 list" where
  "sha256_H0 =
   [1779033703, 3144134277, 1013904242, 2773480762, 1359893119, 2600822924,
    528734635, 1541459225]"

definition be32 :: "byte list \<Rightarrow> w32" where
  "be32 bs = foldl (\<lambda>acc b. push_bit 8 acc OR ucast b) 0 bs"

definition bytes_of_w32 :: "w32 \<Rightarrow> byte list" where
  "bytes_of_w32 w = map (\<lambda>i. ucast (drop_bit (8 * i) w)) [3, 2, 1, 0]"

definition bytes_of_len :: "nat \<Rightarrow> byte list" where
  "bytes_of_len n =
     map (\<lambda>i. ucast (drop_bit (8 * i) (word_of_nat n :: 64 word))) [7, 6, 5, 4, 3, 2, 1, 0]"

definition sha256_pad :: "byte list \<Rightarrow> byte list" where
  "sha256_pad m =
     m @ [0x80] @ replicate ((119 - length m mod 64) mod 64) 0 @ bytes_of_len (8 * length m)"

fun chunks :: "nat \<Rightarrow> 'a list \<Rightarrow> 'a list list" where
  "chunks n [] = []"
| "chunks n (x # xs) =
     (if n = 0 then [] else take n (x # xs) # chunks n (drop n (x # xs)))"

text \<open>The 64 rounds over one block. The message schedule is kept as a window of sixteen
  words: its head is the word of the current round, and the word sixteen rounds ahead is
  appended.\<close>

fun sha256_rounds :: "w32 list \<Rightarrow> w32 list \<Rightarrow> w32 list \<Rightarrow> w32 list" where
  "sha256_rounds [] w s = s"
| "sha256_rounds (k # ks) w [a, b, c, d, e, f, g, h] =
     (let t1 = h + bsig1 e + Ch e f g + k + w ! 0;
          t2 = bsig0 a + Maj a b c;
          w' = tl w @ [ssig1 (w ! 14) + w ! 9 + ssig0 (w ! 1) + w ! 0]
      in sha256_rounds ks w' [t1 + t2, a, b, c, d + t1, e, f, g])"
| "sha256_rounds (k # ks) w s = s"

definition sha256_compress :: "w32 list \<Rightarrow> byte list \<Rightarrow> w32 list" where
  "sha256_compress s block =
     map2 (+) s (sha256_rounds sha256_K (map be32 (chunks 4 block)) s)"

definition sha256 :: "byte list \<Rightarrow> byte list" where
  "sha256 m =
     concat (map bytes_of_w32 (foldl sha256_compress sha256_H0 (chunks 64 (sha256_pad m))))"

definition hmac_sha256 :: "byte list \<Rightarrow> byte list \<Rightarrow> byte list" where
  "hmac_sha256 key msg =
     (let k0 = (if length key > 64 then sha256 key else key);
          k = k0 @ replicate (64 - length k0) 0
      in sha256 (map (\<lambda>b. b XOR 0x5c) k @ sha256 (map (\<lambda>b. b XOR 0x36) k @ msg)))"

definition encode_utf8 :: "string \<Rightarrow> byte list" where
  "encode_utf8 s = map (\<lambda>c. of_char c) s"

text \<open>\<^verbatim>\<open>s.encode('utf-8')\<close> for a string from the environment: a lone surrogate raises
  \<^verbatim>\<open>UnicodeEncodeError\<close>.\<close>

fun encode_env_str :: "env_str \<Rightarrow> exn + byte list" where
  "encode_env_str (Str s) = Inr (encode_utf8 s)"
| "encode_env_str Lone_surrogates = Inl UnicodeEncodeError"

text \<open>\<^verbatim>\<open>bytes.hex()\<close>: two lowercase hexadecimal digits per byte, high nibble first.\<close>

definition hex_digit :: "nat \<Rightarrow> char" where
  "hex_digit n = ''0123456789abcdef'' ! (n mod 16)"

definition bytes_hex :: "byte list \<Rightarrow> string" where
  "bytes_hex bs = concat (map (\<lambda>b. [hex_digit (unat b div 16), hex_digit (unat b mod 16)]) bs)"

section \<open>The libraries: json, pandas, requests\<close>

text \<open>\<^verbatim>\<open>response.text\<close> is represented by what it is to \<^verbatim>\<open>json.loads\<close>. \<open>JSON v\<close> is a
  text that is valid JSON, with its value. \<open>NonStandard v\<close> is a text that is not valid JSON
  and that \<^verbatim>\<open>json.loads\<close> accepts all the same, with the value it gives: Python reads the
  constants \<^verbatim>\<open>NaN\<close>, \<^verbatim>\<open>Infinity\<close> and \<^verbatim>\<open>-Infinity\<close>, which JSON does not have.
  \<open>Over_limit l\<close> is a text, valid JSON or not, on which \<^verbatim>\<open>json.loads\<close> gives up at a limit
  of the interpreter: it raises \<^verbatim>\<open>RecursionError\<close> when arrays or objects are nested too
  deep, and \<^verbatim>\<open>ValueError\<close> at an integer literal longer than the interpreter converts
  (4300 digits unless configured otherwise). \<open>NotJSON\<close> is any other text: \<^verbatim>\<open>json.loads\<close>
  raises \<^verbatim>\<open>JSONDecodeError\<close>.\<close>

datatype loads_limit = Nesting_too_deep | Integer_too_long

datatype body = NotJSON | JSON pyval | NonStandard pyval | Over_limit loads_limit

fun json_loads :: "body \<Rightarrow> exn + pyval" where
  "json_loads NotJSON = Inl JSONDecodeError"
| "json_loads (JSON v) = Inr v"
| "json_loads (NonStandard v) = Inr v"
| "json_loads (Over_limit Nesting_too_deep) = Inl RecursionError"
| "json_loads (Over_limit Integer_too_long) = Inl ValueError"

text \<open>A pandas \<^verbatim>\<open>DataFrame\<close>: its column labels and its rows. A cell that pandas fills
  in because a record has no value for a column is \<open>Missing\<close>. The coercion of a column to
  one dtype is not modelled: a cell keeps the JSON value it came from.\<close>

datatype label = Pos nat | Name string

datatype cell = Missing | Val pyval

record frame =
  columns :: "label list"
  rows :: "cell list list"

text \<open>\<^verbatim>\<open>d[k] = v\<close> and \<^verbatim>\<open>d.update(other)\<close> on an insertion-ordered dict.\<close>

definition dict_update :: "(string \<times> pyval) list \<Rightarrow> (string \<times> pyval) list \<Rightarrow> (string \<times> pyval) list" where
  "dict_update d other = foldl (\<lambda>acc (k, v). AList.update k v acc) d other"

text \<open>A dict with plain keys: in it and in the dicts nested in it, no key holds a dot and
  no key occurs twice. On such a dict the dotted keys that flattening makes are all
  different from each other and from the keys that are there.\<close>

fun plain_keys :: "(string \<times> pyval) list \<Rightarrow> bool" where
  "plain_keys [] = True"
| "plain_keys ((k, PDict v) # kvs) =
     (CHR ''.'' \<notin> set k \<and> k \<notin> fst ` set kvs \<and> plain_keys v \<and> plain_keys kvs)"
| "plain_keys ((k, v) # kvs) = (CHR ''.'' \<notin> set k \<and> k \<notin> fst ` set kvs \<and> plain_keys kvs)"

text \<open>\<^verbatim>\<open>pandas.io.json._normalize.nested_to_record\<close> on one dict with plain keys: a nested
  dict is removed and its entries are added under dotted keys; below the top level every
  key is renamed.\<close>

fun ntr_items :: "string option \<Rightarrow> (string \<times> pyval) list \<Rightarrow> (string \<times> pyval) list \<Rightarrow> (string \<times> pyval) list" where
  "ntr_items prefix [] new_d = new_d"
| "ntr_items prefix ((k, PDict v) # kvs) new_d =
     (let newkey = (case prefix of None \<Rightarrow> k | Some p \<Rightarrow> p @ ''.'' @ k);
          inner = ntr_items (Some newkey) v v
      in ntr_items prefix kvs (dict_update (AList.delete k new_d) inner))"
| "ntr_items prefix ((k, v) # kvs) new_d =
     (case prefix of
        None \<Rightarrow> ntr_items prefix kvs new_d
      | Some p \<Rightarrow> ntr_items prefix kvs (AList.update (p @ ''.'' @ k) v (AList.delete k new_d)))"

definition nested_to_record :: "(string \<times> pyval) list \<Rightarrow> (string \<times> pyval) list" where
  "nested_to_record d = ntr_items None d d"

text \<open>The records of a record array, flattened, when they are all dicts with plain keys.\<close>

fun as_dicts :: "pyval list \<Rightarrow> (string \<times> pyval) list list option" where
  "as_dicts [] = Some []"
| "as_dicts (PDict d # rs) =
     (if plain_keys d then map_option ((#) (nested_to_record d)) (as_dicts rs) else None)"
| "as_dicts (r # rs) = None"

text \<open>\<^verbatim>\<open>DataFrame(records)\<close> for flattened records: the columns are the keys in the order
  in which they first appear, and a record without a key has a missing cell.\<close>

definition frame_of_dicts :: "(string \<times> pyval) list list \<Rightarrow> frame" where
  "frame_of_dicts ds =
     (let cols = rev (remdups (rev (concat (map (map fst) ds))))
      in \<lparr>columns = map Name cols,
          rows = map (\<lambda>d. map (\<lambda>c. case map_of d c of None \<Rightarrow> Missing | Some v \<Rightarrow> Val v) cols) ds\<rparr>)"

text \<open>\<^verbatim>\<open>pd.json_normalize(js, record_path=[field])\<close>. The records are pulled by
  \<^verbatim>\<open>_pull_records\<close>: a missing key is a \<^verbatim>\<open>KeyError\<close>; a value that is not a list is
  tested with \<^verbatim>\<open>pd.isnull\<close>, which holds of \<^verbatim>\<open>None\<close> and of NaN, and then counts as no
  records; any other value is a \<^verbatim>\<open>TypeError\<close> (``Must be list or null'').

  What pandas makes of records that are not all dicts with plain keys, and of a value
  \<open>js\<close> that is not a dict, is not written out here: it is the parameter \<open>other\<close>, so that
  whatever is proved holds for every behaviour of pandas there.\<close>

fun json_normalize :: "(pyval \<Rightarrow> string \<Rightarrow> exn + frame) \<Rightarrow> pyval \<Rightarrow> string \<Rightarrow> exn + frame" where
  "json_normalize other (PDict js) field =
     (case map_of js field of
        None \<Rightarrow> Inl (KeyError field)
      | Some PNone \<Rightarrow> Inr (frame_of_dicts [])
      | Some (PFloat NaN) \<Rightarrow> Inr (frame_of_dicts [])
      | Some (PList recs) \<Rightarrow>
          (case as_dicts recs of
             None \<Rightarrow> other (PDict js) field
           | Some ds \<Rightarrow> Inr (frame_of_dicts ds))
      | Some v \<Rightarrow> Inl TypeError)"
| "json_normalize other v field = other v field"

text \<open>\<^verbatim>\<open>pd.DataFrame(lst)\<close> for a list of rows: as wide as the longest row, shorter rows
  padded, columns labelled by position.\<close>

definition DataFrame :: "cell list list \<Rightarrow> frame" where
  "DataFrame lst =
     (let w = foldr max (map length lst) 0
      in \<lparr>columns = map Pos [0..<w],
          rows = map (\<lambda>r. r @ replicate (w - length r) Missing) lst\<rparr>)"

text \<open>\<^verbatim>\<open>df.columns = labels\<close>: pandas raises \<^verbatim>\<open>ValueError\<close> (``Length mismatch'') unless
  there is one label per column.\<close>

definition set_columns :: "frame \<Rightarrow> label list \<Rightarrow> exn + frame" where
  "set_columns df labels =
     (if length labels = length (columns df) then Inr (df\<lparr>columns := labels\<rparr>)
      else Inl ValueError)"

text \<open>A call \<^verbatim>\<open>requests.get(url, headers=headers)\<close> and what comes back: an exception, or
  a response with its status and text.\<close>

record request =
  url :: string
  headers :: "(string \<times> string option) list"

record response =
  status_code :: nat
  response_text :: body

datatype reply = Raises exn | Returns response

text \<open>\<^verbatim>\<open>response.raise_for_status()\<close> raises \<^verbatim>\<open>requests.exceptions.HTTPError\<close> for a
  status from 400 to 599, and for no other.\<close>

definition raise_for_status :: "response \<Rightarrow> exn + unit" where
  "raise_for_status r =
     (if 400 \<le> status_code r \<and> status_code r < 600 then Inl (Requests_HTTPError (status_code r))
      else Inr ())"

section \<open>The environment of the notebook\<close>

text \<open>
  What the functions read from outside: the two globals set from the process environment
  (\<^verbatim>\<open>os.environ.get\<close> gives \<^verbatim>\<open>None\<close> for an unset variable), the clock and the server.
  \<open>time_time env k\<close> is \<^verbatim>\<open>int(time.time())\<close> at the \<open>k\<close>-th reading of the clock, and
  \<open>requests_get env k\<close> is what the \<open>k\<close>-th call of \<^verbatim>\<open>requests.get\<close> does with its
  request, so a server may answer every call differently. \<open>pandas_other env\<close> is what
  \<^verbatim>\<open>pd.json_normalize\<close> does where \<open>json_normalize\<close> above leaves it open.

  The effects are kept in a \<open>world\<close>: how often the clock was read, the requests issued, and
  the lines printed.
\<close>

record env =
  CB_API_KEY :: "string option"
  CB_SECRET_KEY :: "env_str option"
  time_time :: "nat \<Rightarrow> int"
  requests_get :: "nat \<Rightarrow> request \<Rightarrow> reply"
  pandas_other :: "pyval \<Rightarrow> string \<Rightarrow> exn + frame"

datatype line =
    Connection_successful string
  | HTTP_error_occurred exn
  | Other_error_occurred exn

record world =
  ticks :: nat
  sent :: "request list"
  stdout :: "line list"

definition world0 :: world where
  "world0 = \<lparr>ticks = 0, sent = [], stdout = []\<rparr>"

section \<open>cb_connect\<close>

text \<open>Lines 130 to 133 of the notebook: \<^verbatim>\<open>timestamp = str(int(time.time()))\<close>,
  \<^verbatim>\<open>method = 'GET'\<close>, \<^verbatim>\<open>body = ''\<close> and
  \<^verbatim>\<open>message = timestamp + method + url_path.split('?')[0] + body\<close>.\<close>

definition cb_timestamp :: "env \<Rightarrow> world \<Rightarrow> string" where
  "cb_timestamp env w = str_int (time_time env (ticks w))"

definition cb_message :: "string \<Rightarrow> string \<Rightarrow> string" where
  "cb_message timestamp url_path =
     (let method = ''GET''; body = []
      in timestamp @ method @ hd (py_split CHR ''?'' url_path) @ body)"

text \<open>Line 134: \<^verbatim>\<open>hmac.new(secret_key.encode('utf-8'), message.encode('utf-8'),
  digestmod=hashlib.sha256).digest()\<close>. When the variable \<^verbatim>\<open>CB-API-SECRET\<close> is unset,
  \<^verbatim>\<open>secret_key\<close> is \<^verbatim>\<open>None\<close> and \<^verbatim>\<open>secret_key.encode\<close> raises \<^verbatim>\<open>AttributeError\<close>;
  when the secret holds a lone surrogate, encoding it raises \<^verbatim>\<open>UnicodeEncodeError\<close>.\<close>

definition cb_signature :: "env_str option \<Rightarrow> string \<Rightarrow> exn + byte list" where
  "cb_signature secret_key message =
     (case secret_key of
        None \<Rightarrow> Inl AttributeError
      | Some s \<Rightarrow>
          (case encode_env_str s of
             Inl e \<Rightarrow> Inl e
           | Inr key \<Rightarrow> Inr (hmac_sha256 key (encode_utf8 message))))"

text \<open>Line 135: the headers, with \<^verbatim>\<open>signature.hex()\<close> under \<^verbatim>\<open>CB-ACCESS-SIGN\<close>.\<close>

definition cb_headers :: "byte list \<Rightarrow> string option \<Rightarrow> string \<Rightarrow> (string \<times> string option) list" where
  "cb_headers signature api_key timestamp =
     [(''accept'', Some ''application/json''),
      (''CB-ACCESS-SIGN'', Some (bytes_hex signature)),
      (''CB-ACCESS-KEY'', api_key),
      (''CB-ACCESS-TIMESTAMP'', Some timestamp)]"

text \<open>Lines 126, 127 and 136 to 138: the URL. \<^verbatim>\<open>cursor != ''\<close> holds for every value but
  the empty string, and \<^verbatim>\<open>url + '&cursor=' + cursor\<close> raises \<^verbatim>\<open>TypeError\<close> unless
  \<^verbatim>\<open>cursor\<close> is a string.\<close>

definition cb_url :: "string \<Rightarrow> int \<Rightarrow> pyval \<Rightarrow> exn + string" where
  "cb_url url_path limit cursor =
     (let url_prefix = ''https://coinbase.com'';
          url = url_prefix @ url_path;
          url = url @ ''?limit='' @ str_int limit
      in if cursor \<noteq> PStr [] then
           (case cursor of PStr c \<Rightarrow> Inr (url @ ''&cursor='' @ c) | _ \<Rightarrow> Inl TypeError)
         else Inr url)"

text \<open>Lines 126 to 138 together: the request that \<^verbatim>\<open>cb_connect\<close> is about to issue, or
  the exception raised before anything is issued.\<close>

definition cb_request :: "env \<Rightarrow> string \<Rightarrow> int \<Rightarrow> pyval \<Rightarrow> world \<Rightarrow> exn + request" where
  "cb_request env url_path limit cursor w =
     (let secret_key = CB_SECRET_KEY env;
          api_key = CB_API_KEY env;
          timestamp = cb_timestamp env w;
          message = cb_message timestamp url_path
      in case cb_signature secret_key message of
           Inl e \<Rightarrow> Inl e
         | Inr signature \<Rightarrow>
             (case cb_url url_path limit cursor of
                Inl e \<Rightarrow> Inl e
              | Inr u \<Rightarrow> Inr \<lparr>url = u, headers = cb_headers signature api_key timestamp\<rparr>))"

text \<open>\<^verbatim>\<open>except HTTPError\<close> names the class imported on line 102,
  \<^verbatim>\<open>from urllib.error import HTTPError\<close>.\<close>

fun isinstance_HTTPError :: "exn \<Rightarrow> bool" where
  "isinstance_HTTPError (Urllib_HTTPError s) = True"
| "isinstance_HTTPError e = False"

text \<open>Lines 139 to 147: the \<^verbatim>\<open>try\<close> block. Both handlers print and fall off the end of
  the function, which then returns \<^verbatim>\<open>None\<close>.\<close>

definition cb_connect :: "env \<Rightarrow> string \<Rightarrow> int \<Rightarrow> pyval \<Rightarrow> world \<Rightarrow> world \<times> (exn + response option)" where
  "cb_connect env url_path limit cursor w =
     (let w1 = w\<lparr>ticks := Suc (ticks w)\<rparr>
      in case cb_request env url_path limit cursor w of
           Inl e \<Rightarrow> (w1, Inl e)
         | Inr rq \<Rightarrow>
             (let w2 = w1\<lparr>sent := sent w1 @ [rq]\<rparr>;
                  tried = (case requests_get env (length (sent w)) rq of
                             Raises e \<Rightarrow> Inl e
                           | Returns response \<Rightarrow>
                               (case raise_for_status response of
                                  Inl e \<Rightarrow> Inl e
                                | Inr u \<Rightarrow> Inr response))
              in case tried of
                   Inr response \<Rightarrow>
                     (w2\<lparr>stdout := stdout w2 @ [Connection_successful (url rq)]\<rparr>, Inr (Some response))
                 | Inl e \<Rightarrow>
                     if isinstance_HTTPError e
                     then (w2\<lparr>stdout := stdout w2 @ [HTTP_error_occurred e]\<rparr>, Inr None)
                     else (w2\<lparr>stdout := stdout w2 @ [Other_error_occurred e]\<rparr>, Inr None)))"

section \<open>cb_get_all_accounts and cb_get_all_orders\<close>

text \<open>
  The two functions are the same text up to the path, the limit and the name of the record
  field, so one embedding with these three as parameters serves both. The variables of the
  loop are \<^verbatim>\<open>has_next\<close>, \<^verbatim>\<open>cursor\<close>, the accumulated rows and the frame of the last page
  (unbound before the first page).
\<close>

record loop_state =
  has_next :: pyval
  cursor :: pyval
  lst :: "cell list list"
  tmp_df :: "frame option"

definition loop_init :: loop_state where
  "loop_init = \<lparr>has_next = PBool True, cursor = PStr [], lst = [], tmp_df = None\<rparr>"

text \<open>Lines 157 to 162 (177 to 182): what one iteration does with the value that
  \<^verbatim>\<open>cb_connect\<close> returned. \<^verbatim>\<open>response.text\<close> on \<^verbatim>\<open>None\<close> raises \<^verbatim>\<open>AttributeError\<close>.\<close>

definition read_page :: "env \<Rightarrow> string \<Rightarrow> loop_state \<Rightarrow> response option \<Rightarrow> exn + loop_state" where
  "read_page env record_path st response =
     (case response of
        None \<Rightarrow> Inl AttributeError
      | Some r \<Rightarrow>
          (case json_loads (response_text r) of
             Inl e \<Rightarrow> Inl e
           | Inr js \<Rightarrow>
               (case getitem js ''has_next'' of
                  Inl e \<Rightarrow> Inl e
                | Inr hn \<Rightarrow>
                    (case getitem js ''cursor'' of
                       Inl e \<Rightarrow> Inl e
                     | Inr c \<Rightarrow>
                         (case json_normalize (pandas_other env) js record_path of
                            Inl e \<Rightarrow> Inl e
                          | Inr tmp \<Rightarrow>
                              Inr \<lparr>has_next = hn, cursor = c, lst = lst st @ rows tmp,
                                   tmp_df = Some tmp\<rparr>)))))"

text \<open>One iteration of the \<^verbatim>\<open>while\<close> loop: lines 154 to 162 (174 to 182).\<close>

definition page_step :: "env \<Rightarrow> string \<Rightarrow> int \<Rightarrow> string \<Rightarrow> loop_state \<Rightarrow> world \<Rightarrow> world \<times> (exn + loop_state)" where
  "page_step env url_path limit record_path st w =
     (case cb_connect env url_path limit (cursor st) w of
        (w', Inl e) \<Rightarrow> (w', Inl e)
      | (w', Inr response) \<Rightarrow> (w', read_page env record_path st response))"

text \<open>The loop \<^verbatim>\<open>while has_next:\<close>. Nothing bounds it, so it is a partial function:
  \<open>None\<close> means that the loop never ends.\<close>

partial_function (option) cb_loop ::
  "env \<Rightarrow> string \<Rightarrow> int \<Rightarrow> string \<Rightarrow> loop_state \<Rightarrow> world \<Rightarrow> (world \<times> (exn + loop_state)) option" where
  "cb_loop env url_path limit record_path st w =
     (if truthy (has_next st) then
        (case page_step env url_path limit record_path st w of
           (w', Inl e) \<Rightarrow> Some (w', Inl e)
         | (w', Inr st') \<Rightarrow> cb_loop env url_path limit record_path st' w')
      else Some (w, Inr st))"

declare cb_loop.simps [code]

text \<open>Lines 163 to 167 (183 to 187): the frame built from the accumulated rows, labelled
  with the columns of the last page.\<close>

definition finish :: "loop_state \<Rightarrow> exn + frame" where
  "finish st =
     (case tmp_df st of
        None \<Rightarrow> Inl UnboundLocalError
      | Some tmp \<Rightarrow> set_columns (DataFrame (lst st)) (columns tmp))"

definition cb_get_all :: "env \<Rightarrow> string \<Rightarrow> int \<Rightarrow> string \<Rightarrow> world \<Rightarrow> (world \<times> (exn + frame)) option" where
  "cb_get_all env url_path limit record_path w =
     (case cb_loop env url_path limit record_path loop_init w of
        None \<Rightarrow> None
      | Some (w', Inl e) \<Rightarrow> Some (w', Inl e)
      | Some (w', Inr st) \<Rightarrow> Some (w', finish st))"

definition cb_get_all_accounts :: "env \<Rightarrow> world \<Rightarrow> (world \<times> (exn + frame)) option" where
  "cb_get_all_accounts env w = cb_get_all env ''/api/v3/brokerage/accounts'' 50 ''accounts'' w"

definition cb_get_all_orders :: "env \<Rightarrow> world \<Rightarrow> (world \<times> (exn + frame)) option" where
  "cb_get_all_orders env w =
     cb_get_all env ''/api/v3/brokerage/orders/historical/batch'' 100 ''orders'' w"

section \<open>The first iterations of the loop\<close>

text \<open>The loop cut off after \<open>n\<close> tests of its condition: \<open>None\<close> when it has not ended by
  then. It is the same text as \<open>cb_loop\<close>, and is used to run the loop on concrete servers
  and to say after how many pages it ends.\<close>

fun cb_loop_fuel ::
  "nat \<Rightarrow> env \<Rightarrow> string \<Rightarrow> int \<Rightarrow> string \<Rightarrow> loop_state \<Rightarrow> world \<Rightarrow> (world \<times> (exn + loop_state)) option" where
  "cb_loop_fuel 0 env url_path limit record_path st w = None"
| "cb_loop_fuel (Suc n) env url_path limit record_path st w =
     (if truthy (has_next st) then
        (case page_step env url_path limit record_path st w of
           (w', Inl e) \<Rightarrow> Some (w', Inl e)
         | (w', Inr st') \<Rightarrow> cb_loop_fuel n env url_path limit record_path st' w')
      else Some (w, Inr st))"

section \<open>The notions of the specification\<close>

text \<open>The Signer of the specification: the canonical message is the decimal timestamp, the
  method, the path stripped of any query string, and the body; the signature is the
  lowercase hexadecimal HMAC-SHA256 of the message under the secret.\<close>

definition spec_strip_query :: "string \<Rightarrow> string" where
  "spec_strip_query path = takeWhile (\<lambda>x. x \<noteq> CHR ''?'') path"

definition spec_canonical_message :: "int \<Rightarrow> string \<Rightarrow> string \<Rightarrow> string \<Rightarrow> string" where
  "spec_canonical_message timestamp method path body =
     str_int timestamp @ method @ spec_strip_query path @ body"

definition spec_sign :: "string \<Rightarrow> int \<Rightarrow> string \<Rightarrow> string \<Rightarrow> string \<Rightarrow> string" where
  "spec_sign secret timestamp method path body =
     bytes_hex (hmac_sha256 (encode_utf8 secret)
                  (encode_utf8 (spec_canonical_message timestamp method path body)))"

text \<open>Reading a decimal numeral and a hexadecimal string back: what ``decimal string'' and
  ``hexadecimal rendering'' mean.\<close>

definition spec_read_decimal :: "string \<Rightarrow> nat" where
  "spec_read_decimal s = foldl (\<lambda>a c. 10 * a + (of_char c - 48)) 0 s"

fun spec_read_hex :: "string \<Rightarrow> byte list" where
  "spec_read_hex (a # b # s) =
     (let v = (\<lambda>c. if of_char c < (58 :: nat) then of_char c - 48 else of_char c - (87 :: nat))
      in word_of_nat (16 * v a + v b) # spec_read_hex s)"
| "spec_read_hex s = []"

text \<open>The Page of the specification, as one iteration of the loop reads it from a response:
  the rows and the columns of the frame that pandas builds from the record array,
  whether \<^verbatim>\<open>has_next\<close> is true, and the cursor.\<close>

record page =
  records :: "cell list list"
  labels :: "label list"
  has_more :: bool
  next_cursor :: string

definition parses_to :: "env \<Rightarrow> string \<Rightarrow> response \<Rightarrow> page \<Rightarrow> bool" where
  "parses_to env record_path r pg =
     (raise_for_status r = Inr () \<and>
      (case json_loads (response_text r) of
         Inl e \<Rightarrow> False
       | Inr js \<Rightarrow>
           getitem js ''has_next'' = Inr (PBool (has_more pg)) \<and>
           getitem js ''cursor'' = Inr (PStr (next_cursor pg)) \<and>
           json_normalize (pandas_other env) js record_path =
             Inr \<lparr>columns = labels pg, rows = records pg\<rparr>))"

text \<open>The server answers the calls \<open>k\<close>, \<open>k + 1\<close>, ... with the given pages, whatever the
  request.\<close>

fun serves :: "env \<Rightarrow> string \<Rightarrow> nat \<Rightarrow> page list \<Rightarrow> bool" where
  "serves env record_path k [] = True"
| "serves env record_path k (pg # pgs) =
     ((\<exists>r. parses_to env record_path r pg \<and> (\<forall>rq. requests_get env k rq = Returns r)) \<and>
      serves env record_path (Suc k) pgs)"

text \<open>The variables of the loop after a page, and after a list of pages.\<close>

definition after_page :: "loop_state \<Rightarrow> page \<Rightarrow> loop_state" where
  "after_page st pg =
     \<lparr>has_next = PBool (has_more pg), cursor = PStr (next_cursor pg),
      lst = lst st @ records pg,
      tmp_df = Some \<lparr>columns = labels pg, rows = records pg\<rparr>\<rparr>"

definition after_pages :: "loop_state \<Rightarrow> page list \<Rightarrow> loop_state" where
  "after_pages st pgs = foldl after_page st pgs"

text \<open>The URLs of a cursor-chained run: the first request carries the given cursor (none
  when it is empty), and each later one the cursor of the page before it.\<close>

fun chained_urls :: "string \<Rightarrow> string \<Rightarrow> page list \<Rightarrow> string list" where
  "chained_urls base c [] = []"
| "chained_urls base c (pg # pgs) =
     (base @ (if c = [] then [] else ''&cursor='' @ c)) # chained_urls base (next_cursor pg) pgs"

text \<open>A value without the record-array field, or with a value there that is not an array.\<close>

definition lacks_array :: "string \<Rightarrow> pyval \<Rightarrow> bool" where
  "lacks_array record_path v =
     (case v of
        PDict d \<Rightarrow>
          (case map_of d record_path of None \<Rightarrow> True | Some (PList recs) \<Rightarrow> False | Some x \<Rightarrow> True)
      | _ \<Rightarrow> True)"

text \<open>A malformed page body in the words of the specification: not valid JSON, or without
  the record-array field, or with a value there that is not an array. Of a text at a limit
  of the interpreter it is not known whether it is valid JSON; it is not counted here.\<close>

definition spec_malformed :: "string \<Rightarrow> body \<Rightarrow> bool" where
  "spec_malformed record_path b =
     (case b of
        NotJSON \<Rightarrow> True
      | NonStandard v \<Rightarrow> True
      | JSON v \<Rightarrow> lacks_array record_path v
      | Over_limit l \<Rightarrow> False)"

text \<open>A value that holds null or NaN under the record-array field.\<close>

definition nullish_records :: "string \<Rightarrow> pyval \<Rightarrow> bool" where
  "nullish_records record_path v =
     (case v of
        PDict d \<Rightarrow> map_of d record_path = Some PNone \<or> map_of d record_path = Some (PFloat NaN)
      | _ \<Rightarrow> False)"

text \<open>The bodies on which reading the page fails: those that \<^verbatim>\<open>json.loads\<close> rejects, and
  those whose value is without the record-array field or holds there a value that is
  neither an array nor null nor NaN.\<close>

definition malformed_not_nullish :: "string \<Rightarrow> body \<Rightarrow> bool" where
  "malformed_not_nullish record_path b =
     (case json_loads b of
        Inl e \<Rightarrow> True
      | Inr v \<Rightarrow> lacks_array record_path v \<and> \<not> nullish_records record_path v)"

text \<open>The exceptions with which reading a page fails: the counterpart of the
  specification's ParseError.\<close>

fun is_parse_error :: "exn \<Rightarrow> bool" where
  "is_parse_error JSONDecodeError = True"
| "is_parse_error RecursionError = True"
| "is_parse_error ValueError = True"
| "is_parse_error (KeyError k) = True"
| "is_parse_error TypeError = True"
| "is_parse_error e = False"


text \<open>A server that answers every call with a well-formed page that reports
  \<^verbatim>\<open>has_next = true\<close>.\<close>

definition always_more :: "env \<Rightarrow> string \<Rightarrow> bool" where
  "always_more env record_path =
     (\<forall>k rq. \<exists>r pg. requests_get env k rq = Returns r \<and> parses_to env record_path r pg \<and> has_more pg)"

section \<open>Example environments\<close>

definition ok_page :: "string \<Rightarrow> pyval \<Rightarrow> bool \<Rightarrow> string \<Rightarrow> reply" where
  "ok_page record_path recs hn c =
     Returns \<lparr>status_code = 200,
              response_text = JSON (PDict [(record_path, recs), (''has_next'', PBool hn),
                                           (''cursor'', PStr c)])\<rparr>"

text \<open>The examples have records with plain keys only, so what stands for the rest of
  pandas in them does not matter.\<close>

definition example_env :: "env_str option \<Rightarrow> (nat \<Rightarrow> request \<Rightarrow> reply) \<Rightarrow> env" where
  "example_env secret server =
     \<lparr>CB_API_KEY = Some ''key'', CB_SECRET_KEY = secret,
      time_time = (\<lambda>k. 1700000000 + int k), requests_get = server,
      pandas_other = (\<lambda>js record_path. Inl TypeError)\<rparr>"

definition account :: "string \<Rightarrow> pyval" where
  "account name = PDict [(''uuid'', PStr name)]"

text \<open>Two pages, the second one empty and last.\<close>

definition env_empty_last_page :: env where
  "env_empty_last_page =
     example_env (Some (Str ''secret''))
       (\<lambda>k rq. if k = 0 then ok_page ''accounts'' (PList [account ''A'']) True ''c1''
                else ok_page ''accounts'' (PList []) False [])"

text \<open>Two pages of one account each.\<close>

definition env_two_pages :: env where
  "env_two_pages =
     example_env (Some (Str ''secret''))
       (\<lambda>k rq. if k = 0 then ok_page ''accounts'' (PList [account ''A'']) True ''c1''
                else ok_page ''accounts'' (PList [account ''B'']) False [])"

text \<open>Every answer is an empty page that reports \<^verbatim>\<open>has_next = true\<close>.\<close>

definition env_forever :: env where
  "env_forever = example_env (Some (Str ''secret'')) (\<lambda>k rq. ok_page ''accounts'' (PList []) True ''c'')"


text \<open>Every answer has status 404.\<close>

definition env_not_found :: env where
  "env_not_found =
     example_env (Some (Str ''secret'')) (\<lambda>k rq. Returns \<lparr>status_code = 404, response_text = NotJSON\<rparr>)"

text \<open>The record-array field holds null; it holds NaN, in a body that is not valid JSON;
  and, to compare, a page without the field.\<close>

definition env_null_records :: env where
  "env_null_records = example_env (Some (Str ''secret'')) (\<lambda>k rq. ok_page ''accounts'' PNone False [])"

definition env_nan_records :: env where
  "env_nan_records =
     example_env (Some (Str ''secret''))
       (\<lambda>k rq. Returns \<lparr>status_code = 200,
                          response_text =
                            NonStandard (PDict [(''accounts'', PFloat NaN),
                                                (''has_next'', PBool False),
                                                (''cursor'', PStr [])])\<rparr>)"

definition env_no_records_field :: env where
  "env_no_records_field =
     example_env (Some (Str ''secret''))
       (\<lambda>k rq. Returns \<lparr>status_code = 200,
                          response_text = JSON (PDict [(''has_next'', PBool False),
                                                       (''cursor'', PStr [])])\<rparr>)"

text \<open>The secret is the empty string; the secret is not set; and the secret is what
  \<^verbatim>\<open>os.environ\<close> gives for the byte \<^verbatim>\<open>0xff\<close>, a lone surrogate.\<close>

definition env_empty_secret :: env where
  "env_empty_secret =
     example_env (Some (Str [])) (\<lambda>k rq. ok_page ''accounts'' (PList []) False [])"

definition env_undecodable_secret :: env where
  "env_undecodable_secret =
     example_env (Some Lone_surrogates) (\<lambda>k rq. ok_page ''accounts'' (PList []) False [])"

definition env_no_secret :: env where
  "env_no_secret = example_env None (\<lambda>k rq. ok_page ''accounts'' (PList []) False [])"


text \<open>Two pages of orders: a limit order first, a market order on the last page. The
  nested \<^verbatim>\<open>order_configuration\<close> flattens to three columns for the first and to one for
  the second.\<close>

definition limit_order :: pyval where
  "limit_order =
     PDict [(''order_id'', PStr ''1''),
            (''order_configuration'',
             PDict [(''limit_limit_gtc'',
                     PDict [(''base_size'', PStr ''0.1''), (''limit_price'', PStr ''20000''),
                            (''post_only'', PBool False)])])]"

definition market_order :: pyval where
  "market_order =
     PDict [(''order_id'', PStr ''2''),
            (''order_configuration'',
             PDict [(''market_market_ioc'', PDict [(''quote_size'', PStr ''10'')])])]"

definition env_mixed_orders :: env where
  "env_mixed_orders =
     example_env (Some (Str ''secret''))
       (\<lambda>k rq. if k = 0 then ok_page ''orders'' (PList [limit_order]) True ''c1''
                else ok_page ''orders'' (PList [market_order]) False [])"

section \<open>Strings: splitting, decimal and hexadecimal digits\<close>

lemma py_split_not_Nil: "py_split c s \<noteq> []"
  by (induction s) (auto split: list.splits)

lemma hd_py_split: "hd (py_split c s) = takeWhile (\<lambda>x. x \<noteq> c) s"
  by (induction s) (auto split: list.splits simp: py_split_not_Nil)

lemma cb_message_eq: "cb_message ts p = ts @ ''GET'' @ takeWhile (\<lambda>x. x \<noteq> CHR ''?'') p"
  by (simp add: cb_message_def hd_py_split)

lemma digit_char_inj: "a < 10 \<Longrightarrow> b < 10 \<Longrightarrow> digit_char a = digit_char b \<Longrightarrow> a = b"
  by (simp add: digit_char_def nth_eq_iff_index_eq)

lemma digit_char_range: "d < 10 \<Longrightarrow> digit_char d \<in> set ''0123456789''"
  unfolding digit_char_def by (rule nth_mem) simp

lemma digits_not_Nil: "digits n \<noteq> []"
  by (subst digits.simps) simp

lemma set_digits: "set (digits n) \<subseteq> set ''0123456789''"
proof (induction n rule: digits.induct)
  case (1 n)
  show ?case
  proof (cases "n < 10")
    case True
    then show ?thesis using digit_char_range [of n] by (subst digits.simps) simp
  next
    case False
    then show ?thesis using 1 digit_char_range [of "n mod 10"]
      by (subst digits.simps) simp
  qed
qed

lemma digits_inj: "digits n = digits m \<Longrightarrow> n = m"
proof (induction n arbitrary: m rule: digits.induct)
  case (1 n)
  show ?case
  proof (cases "n < 10")
    case True
    note n = this
    show ?thesis
    proof (cases "m < 10")
      case True
      with n 1(2) show ?thesis
        by (simp add: digits.simps [of n] digits.simps [of m] digit_char_inj)
    next
      case False
      with n 1(2) show ?thesis
        using digits_not_Nil [of "m div 10"]
        by (simp add: digits.simps [of n] digits.simps [of m])
    qed
  next
    case False
    note n = this
    show ?thesis
    proof (cases "m < 10")
      case True
      with n 1(2) show ?thesis
        using digits_not_Nil [of "n div 10"]
        by (simp add: digits.simps [of n] digits.simps [of m])
    next
      case False
      with n 1(2) have "digits (n div 10) = digits (m div 10)"
        and "digit_char (n mod 10) = digit_char (m mod 10)"
        by (simp_all add: digits.simps [of n] digits.simps [of m])
      then have "n div 10 = m div 10" and "n mod 10 = m mod 10"
        using 1(1) [OF n] by (simp_all add: digit_char_inj)
      then show ?thesis by (metis div_mult_mod_eq)
    qed
  qed
qed

lemma minus_not_in_digits: "CHR ''-'' \<notin> set (digits n)"
  using set_digits [of n] by auto

lemma G_not_in_str_int: "CHR ''G'' \<notin> set (str_int i)"
  using set_digits [of "nat i"] set_digits [of "nat (- i)"] by (auto simp: str_int_def)

lemma str_int_inj: "str_int i = str_int j \<Longrightarrow> i = j"
proof -
  assume eq: "str_int i = str_int j"
  consider "i < 0" "j < 0" | "i < 0" "\<not> j < 0" | "\<not> i < 0" "j < 0" | "\<not> i < 0" "\<not> j < 0"
    by blast
  then show ?thesis
  proof cases
    case 1
    with eq have "nat (- i) = nat (- j)" by (simp add: str_int_def digits_inj)
    with 1 show ?thesis by simp
  next
    case 2
    with eq have "CHR ''-'' # digits (nat (- i)) = digits (nat j)"
      by (simp add: str_int_def)
    then have "CHR ''-'' \<in> set (digits (nat j))"
      by (metis list.set_intros(1))
    then show ?thesis by (simp add: minus_not_in_digits)
  next
    case 3
    with eq have "digits (nat i) = CHR ''-'' # digits (nat (- j))"
      by (simp add: str_int_def)
    then have "CHR ''-'' \<in> set (digits (nat i))"
      by (metis list.set_intros(1))
    then show ?thesis by (simp add: minus_not_in_digits)
  next
    case 4
    with eq have "nat i = nat j" by (simp add: str_int_def digits_inj)
    with 4 show ?thesis by simp
  qed
qed

lemma append_sep_eq_iff:
  "x \<notin> set xs \<Longrightarrow> x \<notin> set xs' \<Longrightarrow> (xs @ x # ys = xs' @ x # ys') = (xs = xs' \<and> ys = ys')"
proof (induction xs arbitrary: xs')
  case Nil
  then show ?case by (cases xs') auto
next
  case (Cons a xs)
  then show ?case by (cases xs') auto
qed

lemma cb_message_inj:
  "(cb_message (str_int t) p = cb_message (str_int t') p') =
   (t = t' \<and> takeWhile (\<lambda>x. x \<noteq> CHR ''?'') p = takeWhile (\<lambda>x. x \<noteq> CHR ''?'') p')"
proof -
  let ?A = "''ET'' @ takeWhile (\<lambda>x. x \<noteq> CHR ''?'') p"
  let ?B = "''ET'' @ takeWhile (\<lambda>x. x \<noteq> CHR ''?'') p'"
  have l: "cb_message (str_int t) p = str_int t @ CHR ''G'' # ?A"
    and r: "cb_message (str_int t') p' = str_int t' @ CHR ''G'' # ?B"
    by (simp_all add: cb_message_eq)
  have "(cb_message (str_int t) p = cb_message (str_int t') p') = (str_int t = str_int t' \<and> ?A = ?B)"
    unfolding l r by (rule append_sep_eq_iff) (rule G_not_in_str_int)+
  also have "\<dots> = (t = t' \<and> takeWhile (\<lambda>x. x \<noteq> CHR ''?'') p = takeWhile (\<lambda>x. x \<noteq> CHR ''?'') p')"
    using str_int_inj by auto
  finally show ?thesis .
qed

lemma hex_digit_lower: "hex_digit n \<in> set ''0123456789abcdef''"
  unfolding hex_digit_def by (rule nth_mem) simp

lemma bytes_hex_lower: "set (bytes_hex bs) \<subseteq> set ''0123456789abcdef''"
  unfolding bytes_hex_def using hex_digit_lower by (induction bs) auto

lemma length_bytes_hex: "length (bytes_hex bs) = 2 * length bs"
  unfolding bytes_hex_def by (induction bs) auto

section \<open>cb_connect, case by case\<close>

lemma cb_request_Some:
  "CB_SECRET_KEY env = Some (Str k) \<Longrightarrow>
   cb_request env p l (PStr c) w =
     Inr \<lparr>url = ''https://coinbase.com'' @ p @ ''?limit='' @ str_int l @
                 (if c = [] then [] else ''&cursor='' @ c),
          headers = cb_headers (hmac_sha256 (encode_utf8 k)
                                  (encode_utf8 (cb_message (cb_timestamp env w) p)))
                      (CB_API_KEY env) (cb_timestamp env w)\<rparr>"
  by (simp add: cb_request_def cb_signature_def cb_url_def Let_def)

lemma cb_request_None:
  "CB_SECRET_KEY env = None \<Longrightarrow> cb_request env p l c w = Inl AttributeError"
  by (simp add: cb_request_def cb_signature_def Let_def)

lemma cb_request_Lone_surrogates:
  "CB_SECRET_KEY env = Some Lone_surrogates \<Longrightarrow>
   cb_request env p l c w = Inl UnicodeEncodeError"
  by (simp add: cb_request_def cb_signature_def Let_def)

lemma secret_cases:
  obtains "CB_SECRET_KEY env = None"
  | "CB_SECRET_KEY env = Some Lone_surrogates"
  | k where "CB_SECRET_KEY env = Some (Str k)"
proof (cases "CB_SECRET_KEY env")
  case None
  then show ?thesis using that(1) by simp
next
  case (Some s)
  then show ?thesis using that(2,3) by (cases s) simp_all
qed

lemma cb_connect_raise:
  "cb_request env p l c w = Inl e \<Longrightarrow>
   cb_connect env p l c w = (w\<lparr>ticks := Suc (ticks w)\<rparr>, Inl e)"
  by (simp add: cb_connect_def Let_def)

lemma cb_connect_Returns:
  assumes "cb_request env p l c w = Inr rq"
    and "requests_get env (length (sent w)) rq = Returns r"
    and "raise_for_status r = Inr ()"
  shows "cb_connect env p l c w =
     (w\<lparr>ticks := Suc (ticks w), sent := sent w @ [rq],
        stdout := stdout w @ [Connection_successful (url rq)]\<rparr>, Inr (Some r))"
  using assms by (simp add: cb_connect_def Let_def)

lemma cb_connect_status:
  assumes "cb_request env p l c w = Inr rq"
    and "requests_get env (length (sent w)) rq = Returns r"
    and "raise_for_status r \<noteq> Inr ()"
  shows "cb_connect env p l c w =
     (w\<lparr>ticks := Suc (ticks w), sent := sent w @ [rq],
        stdout := stdout w @ [Other_error_occurred (Requests_HTTPError (status_code r))]\<rparr>,
      Inr None)"
  using assms by (simp add: cb_connect_def Let_def raise_for_status_def split: if_splits)

lemma cb_connect_Raises:
  assumes "cb_request env p l c w = Inr rq"
    and "requests_get env (length (sent w)) rq = Raises e"
  shows "cb_connect env p l c w =
     (w\<lparr>ticks := Suc (ticks w), sent := sent w @ [rq],
        stdout := stdout w @ [if isinstance_HTTPError e then HTTP_error_occurred e
                              else Other_error_occurred e]\<rparr>,
      Inr None)"
  using assms by (simp add: cb_connect_def Let_def)


section \<open>The loop and its first iterations\<close>

lemma cb_loop_fuel_sound:
  "cb_loop_fuel n env p l f st w = Some y \<Longrightarrow> cb_loop env p l f st w = Some y"
proof (induction n arbitrary: st w)
  case 0
  then show ?case by simp
next
  case (Suc n)
  show ?case
  proof (cases "truthy (has_next st)")
    case False
    with Suc.prems show ?thesis by (subst cb_loop.simps) simp
  next
    case True
    obtain w' r where ps: "page_step env p l f st w = (w', r)" by (cases "page_step env p l f st w")
    show ?thesis
    proof (cases r)
      case (Inl e)
      with Suc.prems True ps have "y = (w', Inl e)" by simp
      with True ps Inl show ?thesis by (subst cb_loop.simps) simp
    next
      case (Inr st')
      with Suc.prems True ps have "cb_loop_fuel n env p l f st' w' = Some y" by simp
      then have "cb_loop env p l f st' w' = Some y" by (rule Suc.IH)
      with True ps Inr show ?thesis by (subst cb_loop.simps) simp
    qed
  qed
qed

lemma cb_loop_fuel_complete:
  assumes "cb_loop env p l f st w = Some y"
  shows "\<exists>n. cb_loop_fuel n env p l f st w = Some y"
proof (rule cb_loop.raw_induct
    [where P = "\<lambda>env p l f st w y. \<exists>n. cb_loop_fuel n env p l f st w = Some y", OF _ assms])
  fix cb_loop' env p l f st w y
  assume IH: "\<And>env p l f st w y. cb_loop' env p l f st w = Some y \<Longrightarrow>
                \<exists>n. cb_loop_fuel n env p l f st w = Some y"
    and body: "(if truthy (has_next st) then
                  (case page_step env p l f st w of
                     (w', Inl e) \<Rightarrow> Some (w', Inl e)
                   | (w', Inr st') \<Rightarrow> cb_loop' env p l f st' w')
                else Some (w, Inr st)) = Some y"
  show "\<exists>n. cb_loop_fuel n env p l f st w = Some y"
  proof (cases "truthy (has_next st)")
    case False
    with body have "cb_loop_fuel (Suc 0) env p l f st w = Some y" by simp
    then show ?thesis by blast
  next
    case True
    obtain w' r where ps: "page_step env p l f st w = (w', r)" by (cases "page_step env p l f st w")
    show ?thesis
    proof (cases r)
      case (Inl e)
      with body True ps have "y = (w', Inl e)" by simp
      with True ps Inl have "cb_loop_fuel (Suc 0) env p l f st w = Some y" by simp
      then show ?thesis by blast
    next
      case (Inr st')
      with body True ps have "cb_loop' env p l f st' w' = Some y" by simp
      then obtain n where "cb_loop_fuel n env p l f st' w' = Some y" using IH by blast
      with True ps Inr have "cb_loop_fuel (Suc n) env p l f st w = Some y" by simp
      then show ?thesis by blast
    qed
  qed
qed

lemma cb_loop_eq_fuel:
  "cb_loop_fuel n env p l f st w \<noteq> None \<Longrightarrow>
   cb_loop env p l f st w = cb_loop_fuel n env p l f st w"
  using cb_loop_fuel_sound by fastforce

lemma cb_loop_never:
  "(\<And>n. cb_loop_fuel n env p l f st w = None) \<Longrightarrow> cb_loop env p l f st w = None"
  using cb_loop_fuel_complete by (metis option.exhaust)

section \<open>A test vector for the model of hmac and hashlib\<close>

text \<open>Test case 2 of RFC 4231 for HMAC-SHA-256: what Python's
  \<^verbatim>\<open>hmac.new(b'Jefe', b'what do ya want for nothing?', hashlib.sha256).hexdigest()\<close>
  returns.\<close>

lemma hmac_sha256_rfc4231_case_2:
  "bytes_hex (hmac_sha256 (encode_utf8 ''Jefe'') (encode_utf8 ''what do ya want for nothing?'')) =
   ''5bdcc146bf60754e6a042426089575c75a003f089d2739839dec58b964ec3843''"
  by code_simp

section \<open>Signing\<close>

lemma spec_read_decimal_digits: "spec_read_decimal (digits n) = n"
proof (induction n rule: digits.induct)
  case (1 n)
  have d: "of_char (digit_char k) - 48 = k" if "k < 10" for k :: nat
  proof -
    from that have "k \<in> {0, 1, 2, 3, 4, 5, 6, 7, 8, 9}" by auto
    then show ?thesis by (auto simp: digit_char_def)
  qed
  show ?case
  proof (cases "n < 10")
    case True
    then show ?thesis by (subst digits.simps) (simp add: spec_read_decimal_def d)
  next
    case False
    with 1 have "spec_read_decimal (digits (n div 10)) = n div 10" by simp
    with False show ?thesis
      by (subst digits.simps) (simp add: spec_read_decimal_def d)
  qed
qed

lemma spec_read_decimal_str_int: "0 \<le> t \<Longrightarrow> int (spec_read_decimal (str_int t)) = t"
  by (simp add: str_int_def spec_read_decimal_digits)

lemma spec_read_hex_digit:
  "n < 16 \<Longrightarrow>
   (if of_char (hex_digit n) < (58 :: nat) then of_char (hex_digit n) - 48
    else of_char (hex_digit n) - (87 :: nat)) = n"
proof -
  assume "n < 16"
  then have "n \<in> set [0..<16]" by simp
  also have "[0..<16] = [0, 1, 2, 3, 4, 5, 6, 7, 8, 9, 10, 11, 12, 13, 14, 15]"
    by (simp add: upt_rec)
  finally show ?thesis by (auto simp: hex_digit_def)
qed

lemma spec_read_hex_bytes_hex: "spec_read_hex (bytes_hex bs) = bs"
proof (induction bs)
  case Nil
  then show ?case by (simp add: bytes_hex_def)
next
  case (Cons b bs)
  have lt: "unat b div 16 < 16"
    using unsigned_less [of b, where ?'a = nat] by (simp add: less_mult_imp_div_less)
  have "16 * word_of_nat (unat b div 16) + word_of_nat (unat b mod 16) =
        (word_of_nat (16 * (unat b div 16) + unat b mod 16) :: byte)"
    by (simp only: of_nat_add of_nat_mult of_nat_numeral)
  also have "\<dots> = word_of_nat (unat b)"
    by (simp only: mult_div_mod_eq)
  also have "\<dots> = b"
    by simp
  finally have "16 * word_of_nat (unat b div 16) + word_of_nat (unat b mod 16) = b" .
  with Cons lt show ?case
    using spec_read_hex_digit [of "unat b div 16"] spec_read_hex_digit [of "unat b mod 16"]
    by (simp add: bytes_hex_def Let_def)
qed

text \<open>C4. The signature header of every request that \<open>cb_connect\<close> issues is the Signer of
  the specification applied to the secret, the time read from the clock, the method
  \<^verbatim>\<open>GET\<close>, the path that was passed and the empty body: it consists of lowercase
  hexadecimal digits, and read back as hexadecimal it is the HMAC-SHA256 digest, under the
  bytes of the secret, of the decimal timestamp followed by \<^verbatim>\<open>GET\<close> and by the part of
  the path before the first \<^verbatim>\<open>?\<close>.\<close>

theorem cb_connect_signs_canonical_message:
  assumes "CB_SECRET_KEY env = Some (Str secret)"
    and "cb_request env url_path limit curs w = Inr rq"
  shows "sent (fst (cb_connect env url_path limit curs w)) = sent w @ [rq] \<and>
         map_of (headers rq) ''CB-ACCESS-SIGN'' =
           Some (Some (spec_sign secret (time_time env (ticks w)) ''GET'' url_path [])) \<and>
         set (spec_sign secret (time_time env (ticks w)) ''GET'' url_path []) \<subseteq>
           set ''0123456789abcdef'' \<and>
         spec_read_hex (spec_sign secret (time_time env (ticks w)) ''GET'' url_path []) =
           hmac_sha256 (encode_utf8 secret)
             (encode_utf8 (str_int (time_time env (ticks w)) @ ''GET'' @
                           takeWhile (\<lambda>x. x \<noteq> CHR ''?'') url_path))"
proof -
  have sent: "sent (fst (cb_connect env url_path limit curs w)) = sent w @ [rq]"
    using assms(2) by (simp add: cb_connect_def Let_def split: reply.splits sum.splits)
  have msg: "cb_message (cb_timestamp env w) url_path =
             spec_canonical_message (time_time env (ticks w)) ''GET'' url_path []"
    by (simp add: cb_message_eq cb_timestamp_def spec_canonical_message_def spec_strip_query_def)
  have hdr: "map_of (headers rq) ''CB-ACCESS-SIGN'' =
             Some (Some (spec_sign secret (time_time env (ticks w)) ''GET'' url_path []))"
    using assms msg
    by (auto simp: cb_request_def cb_signature_def cb_headers_def spec_sign_def Let_def
        split: sum.splits)
  have low: "set (spec_sign secret (time_time env (ticks w)) ''GET'' url_path []) \<subseteq>
             set ''0123456789abcdef''"
    unfolding spec_sign_def by (rule bytes_hex_lower)
  have rd: "spec_read_hex (spec_sign secret (time_time env (ticks w)) ''GET'' url_path []) =
              hmac_sha256 (encode_utf8 secret)
                (encode_utf8 (str_int (time_time env (ticks w)) @ ''GET'' @
                              takeWhile (\<lambda>x. x \<noteq> CHR ''?'') url_path))"
    by (simp add: spec_sign_def spec_read_hex_bytes_hex spec_canonical_message_def
        spec_strip_query_def)
  from sent hdr low rd show ?thesis by blast
qed

theorem cb_connect_signs_canonical_message_witness:
  "CB_SECRET_KEY env_two_pages = Some (Str ''secret'') \<and>
   cb_request env_two_pages ''/api/v3/brokerage/accounts?x=1'' 50 (PStr ''c1'') world0 =
     Inr \<lparr>url = ''https://coinbase.com/api/v3/brokerage/accounts?x=1?limit=50&cursor=c1'',
          headers = [(''accept'', Some ''application/json''),
                     (''CB-ACCESS-SIGN'',
                      Some (spec_sign ''secret'' 1700000000 ''GET''
                              ''/api/v3/brokerage/accounts?x=1'' [])),
                     (''CB-ACCESS-KEY'', Some ''key''),
                     (''CB-ACCESS-TIMESTAMP'', Some ''1700000000'')]\<rparr> \<and>
   spec_read_hex (spec_sign ''secret'' 1700000000 ''GET'' ''/api/v3/brokerage/accounts?x=1'' []) =
     hmac_sha256 (encode_utf8 ''secret'') (encode_utf8 ''1700000000GET/api/v3/brokerage/accounts'')"
proof -
  have k: "CB_SECRET_KEY env_two_pages = Some (Str ''secret'')"
    by (simp add: env_two_pages_def example_env_def)
  have t: "str_int 1700000000 = ''1700000000''"
    by (simp add: str_int_def digits.simps digit_char_def)
  have l: "str_int 50 = ''50''"
    by (simp add: str_int_def digits.simps digit_char_def)
  have rq: "cb_request env_two_pages ''/api/v3/brokerage/accounts?x=1'' 50 (PStr ''c1'') world0 =
     Inr \<lparr>url = ''https://coinbase.com/api/v3/brokerage/accounts?x=1?limit=50&cursor=c1'',
          headers = [(''accept'', Some ''application/json''),
                     (''CB-ACCESS-SIGN'',
                      Some (spec_sign ''secret'' 1700000000 ''GET''
                              ''/api/v3/brokerage/accounts?x=1'' [])),
                     (''CB-ACCESS-KEY'', Some ''key''),
                     (''CB-ACCESS-TIMESTAMP'', Some ''1700000000'')]\<rparr>"
    by (simp only: cb_request_Some [OF k])
      (simp add: cb_headers_def cb_timestamp_def cb_message_eq spec_sign_def
        spec_canonical_message_def spec_strip_query_def t l world0_def
        env_two_pages_def example_env_def)
  from cb_connect_signs_canonical_message [OF k rq] k rq t show ?thesis
    by (simp add: env_two_pages_def example_env_def world0_def)
qed

lemma encode_utf8_inj: "encode_utf8 s = encode_utf8 s' \<Longrightarrow> s = s'"
proof -
  have "inj (of_char :: char \<Rightarrow> byte)"
  proof (rule injI)
    fix c d :: char
    assume "(of_char c :: byte) = of_char d"
    then have "(word_of_nat (of_char c) :: byte) = word_of_nat (of_char d)"
      by (simp only: of_nat_of_char)
    then have "(of_char c :: nat) mod 256 = of_char d mod 256"
      by (simp add: word_of_nat_eq_iff take_bit_eq_mod)
    then have "(of_char c :: nat) = of_char d"
      by (simp only: of_char_mod_256)
    then show "c = d" by simp
  qed
  then show "encode_utf8 s = encode_utf8 s' \<Longrightarrow> s = s'"
    unfolding encode_utf8_def by simp
qed

lemma encode_utf8_eq_iff: "(encode_utf8 s = encode_utf8 s') = (s = s')"
  using encode_utf8_inj [of s s'] by auto

lemma cb_request_headers:
  "map_sum id headers (cb_request env p l (PStr c) w) =
   (case CB_SECRET_KEY env of
      None \<Rightarrow> Inl AttributeError
    | Some Lone_surrogates \<Rightarrow> Inl UnicodeEncodeError
    | Some (Str k) \<Rightarrow> Inr (cb_headers (hmac_sha256 (encode_utf8 k)
                                         (encode_utf8 (cb_message (cb_timestamp env w) p)))
                             (CB_API_KEY env) (cb_timestamp env w)))"
  by (cases env rule: secret_cases)
    (simp_all add: cb_request_Some cb_request_None cb_request_Lone_surrogates)

text \<open>C5. Two requests built from the same environment at the same reading of the clock,
  for paths that are equal up to their query strings, carry the same headers, and so the
  same signature, whatever their limits and cursors are; the limit and the cursor are in
  the URL only.\<close>

theorem cb_signature_ignores_limit_and_cursor:
  assumes "spec_strip_query p = spec_strip_query p'"
  shows "map_sum id headers (cb_request env p limit (PStr c) w) =
           map_sum id headers (cb_request env p' limit' (PStr c') w) \<and>
         (case cb_request env p limit (PStr c) w of
            Inl e \<Rightarrow> CB_SECRET_KEY env = None \<or> CB_SECRET_KEY env = Some Lone_surrogates
          | Inr rq \<Rightarrow> url rq = ''https://coinbase.com'' @ p @ ''?limit='' @ str_int limit @
                                (if c = [] then [] else ''&cursor='' @ c))"
proof -
  define m where "m = cb_message (cb_timestamp env w) p'"
  with assms have "cb_message (cb_timestamp env w) p = m"
    and "cb_message (cb_timestamp env w) p' = m"
    by (simp_all add: cb_message_eq spec_strip_query_def)
  then have "map_sum id headers (cb_request env p limit (PStr c) w) =
             map_sum id headers (cb_request env p' limit' (PStr c') w)"
    by (cases env rule: secret_cases) (simp_all add: cb_request_headers)
  moreover have "(case cb_request env p limit (PStr c) w of
            Inl e \<Rightarrow> CB_SECRET_KEY env = None \<or> CB_SECRET_KEY env = Some Lone_surrogates
          | Inr rq \<Rightarrow> url rq = ''https://coinbase.com'' @ p @ ''?limit='' @ str_int limit @
                                (if c = [] then [] else ''&cursor='' @ c))"
    by (cases env rule: secret_cases)
      (simp_all add: cb_request_Some cb_request_None cb_request_Lone_surrogates)
  ultimately show ?thesis by blast
qed

theorem cb_signature_ignores_limit_and_cursor_witness:
  "spec_strip_query ''/api/v3/brokerage/accounts'' =
     spec_strip_query ''/api/v3/brokerage/accounts?limit=7'' \<and>
   map_sum id headers
     (cb_request env_two_pages ''/api/v3/brokerage/accounts'' 50 (PStr ''abc'') world0) =
   map_sum id headers
     (cb_request env_two_pages ''/api/v3/brokerage/accounts?limit=7'' 100 (PStr []) world0)"
proof -
  have h: "spec_strip_query ''/api/v3/brokerage/accounts'' =
           spec_strip_query ''/api/v3/brokerage/accounts?limit=7''"
    by (simp add: spec_strip_query_def)
  from cb_signature_ignores_limit_and_cursor [OF h] h show ?thesis by blast
qed

text \<open>C8, as stated, fails: two paths that differ only behind the first \<^verbatim>\<open>?\<close> are different
  inputs with the same signature.\<close>

theorem cb_signature_same_for_different_paths:
  "''/orders?id=1'' \<noteq> ''/orders?id=2'' \<and>
   cb_signature (Some (Str ''secret'')) (cb_message (str_int 1700000000) ''/orders?id=1'') =
   cb_signature (Some (Str ''secret'')) (cb_message (str_int 1700000000) ''/orders?id=2'')"
  by (simp add: cb_message_eq)

text \<open>C8, amended. The signature is a function of its inputs: it is HMAC-SHA256 of the
  signed message under the bytes of the secret. Two calls hand the same key and the same
  message to HMAC exactly when their secrets are equal, their timestamps are equal and
  their paths are equal up to the first \<^verbatim>\<open>?\<close>. So a change behind the \<^verbatim>\<open>?\<close> never changes
  the signature, and every other change of an input changes what is hashed.\<close>

theorem cb_signature_depends_on_secret_time_and_stripped_path:
  "cb_signature (Some (Str secret)) (cb_message (str_int t) p) =
     Inr (hmac_sha256 (encode_utf8 secret) (encode_utf8 (cb_message (str_int t) p))) \<and>
   ((encode_utf8 secret = encode_utf8 secret' \<and>
     encode_utf8 (cb_message (str_int t) p) = encode_utf8 (cb_message (str_int t') p')) =
    (secret = secret' \<and> t = t' \<and> spec_strip_query p = spec_strip_query p'))"
  by (simp add: cb_signature_def encode_utf8_eq_iff cb_message_inj spec_strip_query_def)

text \<open>That the digest itself changes with the key is not to be had from HMAC: a short key
  is padded with zero bytes, so a key and the same key followed by a zero byte give the
  same digest.\<close>

lemma hmac_sha256_key_padding:
  assumes "length k < 64"
  shows "hmac_sha256 (k @ [0]) m = hmac_sha256 k m"
proof -
  from assms have n: "64 - length k = Suc (63 - length k)" by simp
  have e: "(k @ [0]) @ replicate (64 - length (k @ [0])) 0 =
           k @ replicate (64 - length k) (0 :: byte)"
    by (simp add: n)
  have l: "\<not> 64 < length (k @ [0])" and r: "\<not> 64 < length k"
    using assms by simp_all
  show ?thesis
    unfolding hmac_sha256_def Let_def if_not_P [OF l] if_not_P [OF r] e by (rule refl)
qed

text \<open>C9, as stated, fails: with the empty string as secret nothing is raised. The
  signature is computed with the empty key, the request is issued and the response is
  returned.\<close>

theorem cb_connect_accepts_empty_secret:
  "cb_signature (CB_SECRET_KEY env_empty_secret) ''1700000000GET/api/v3/brokerage/accounts'' =
     Inr (hmac_sha256 [] (encode_utf8 ''1700000000GET/api/v3/brokerage/accounts'')) \<and>
   map url (sent (fst (cb_connect env_empty_secret ''/api/v3/brokerage/accounts'' 50 (PStr [])
                         world0))) =
     [''https://coinbase.com/api/v3/brokerage/accounts?limit=50''] \<and>
   snd (cb_connect env_empty_secret ''/api/v3/brokerage/accounts'' 50 (PStr []) world0) =
     Inr (Some \<lparr>status_code = 200,
                response_text = JSON (PDict [(''accounts'', PList []),
                                             (''has_next'', PBool False),
                                             (''cursor'', PStr [])])\<rparr>)"
proof -
  have k: "CB_SECRET_KEY env_empty_secret = Some (Str [])"
    by (simp add: env_empty_secret_def example_env_def)
  have l: "str_int 50 = ''50''"
    by (simp add: str_int_def digits.simps digit_char_def)
  note rq = cb_request_Some [OF k, of "''/api/v3/brokerage/accounts''" 50 "[]" world0]
  have g: "requests_get env_empty_secret (length (sent world0)) rq =
           Returns \<lparr>status_code = 200,
                    response_text = JSON (PDict [(''accounts'', PList []),
                                                 (''has_next'', PBool False),
                                                 (''cursor'', PStr [])])\<rparr>" for rq
    by (simp add: env_empty_secret_def example_env_def ok_page_def)
  have s: "raise_for_status \<lparr>status_code = 200,
                    response_text = JSON (PDict [(''accounts'', PList []),
                                                 (''has_next'', PBool False),
                                                 (''cursor'', PStr [])])\<rparr> = Inr ()"
    by (simp add: raise_for_status_def)
  show ?thesis
    unfolding cb_connect_Returns [OF rq g s]
    by (simp add: k cb_signature_def encode_utf8_def l world0_def)
qed

text \<open>C9, amended. \<open>cb_connect\<close> raises at the signing step in two cases, and each time
  after reading the clock, before any request is issued and before anything is printed:
  with \<^verbatim>\<open>AttributeError\<close> when the secret is not set, and with \<^verbatim>\<open>UnicodeEncodeError\<close> when
  the secret is set but holds a lone surrogate, so that it has no UTF-8 encoding. There is
  no \<^verbatim>\<open>InvalidCredential\<close>. Every other secret is accepted unchecked, the empty one
  included: its bytes are the HMAC key, the signature is produced, and for a string cursor
  one request that carries this signature is handed to \<^verbatim>\<open>requests.get\<close> and \<open>cb_connect\<close>
  returns.\<close>

theorem cb_connect_raises_iff_secret_unset_or_undecodable:
  "(CB_SECRET_KEY env = None \<longrightarrow>
      cb_signature (CB_SECRET_KEY env) m = Inl AttributeError \<and>
      cb_connect env p l c w = (w\<lparr>ticks := Suc (ticks w)\<rparr>, Inl AttributeError)) \<and>
   (CB_SECRET_KEY env = Some Lone_surrogates \<longrightarrow>
      cb_signature (CB_SECRET_KEY env) m = Inl UnicodeEncodeError \<and>
      cb_connect env p l c w = (w\<lparr>ticks := Suc (ticks w)\<rparr>, Inl UnicodeEncodeError)) \<and>
   (\<forall>k. CB_SECRET_KEY env = Some (Str k) \<longrightarrow>
      cb_signature (CB_SECRET_KEY env) m = Inr (hmac_sha256 (encode_utf8 k) (encode_utf8 m)) \<and>
      (\<exists>rq r. sent (fst (cb_connect env p l (PStr s) w)) = sent w @ [rq] \<and>
              map_of (headers rq) ''CB-ACCESS-SIGN'' =
                Some (Some (bytes_hex (hmac_sha256 (encode_utf8 k)
                                         (encode_utf8 (cb_message (cb_timestamp env w) p))))) \<and>
              snd (cb_connect env p l (PStr s) w) = Inr r))"
proof (intro conjI impI allI)
  assume "CB_SECRET_KEY env = None"
  then show "cb_signature (CB_SECRET_KEY env) m = Inl AttributeError"
    and "cb_connect env p l c w = (w\<lparr>ticks := Suc (ticks w)\<rparr>, Inl AttributeError)"
    by (simp_all add: cb_connect_raise cb_request_None cb_signature_def)
next
  assume "CB_SECRET_KEY env = Some Lone_surrogates"
  then show "cb_signature (CB_SECRET_KEY env) m = Inl UnicodeEncodeError"
    and "cb_connect env p l c w = (w\<lparr>ticks := Suc (ticks w)\<rparr>, Inl UnicodeEncodeError)"
    by (simp_all add: cb_connect_raise cb_request_Lone_surrogates cb_signature_def)
next
  fix k
  assume k: "CB_SECRET_KEY env = Some (Str k)"
  then show "cb_signature (CB_SECRET_KEY env) m =
             Inr (hmac_sha256 (encode_utf8 k) (encode_utf8 m))"
    by (simp add: cb_signature_def)
  note rq = cb_request_Some [OF k, of p l s w]
  show "\<exists>rq r. sent (fst (cb_connect env p l (PStr s) w)) = sent w @ [rq] \<and>
              map_of (headers rq) ''CB-ACCESS-SIGN'' =
                Some (Some (bytes_hex (hmac_sha256 (encode_utf8 k)
                                         (encode_utf8 (cb_message (cb_timestamp env w) p))))) \<and>
              snd (cb_connect env p l (PStr s) w) = Inr r"
    unfolding cb_connect_def Let_def rq
    by (simp add: cb_headers_def split: reply.splits sum.splits)
qed

theorem cb_connect_raises_iff_secret_unset_or_undecodable_witness:
  "CB_SECRET_KEY env_no_secret = None \<and>
   cb_connect env_no_secret ''/api/v3/brokerage/accounts'' 50 (PStr []) world0 =
     (\<lparr>ticks = 1, sent = [], stdout = []\<rparr>, Inl AttributeError) \<and>
   CB_SECRET_KEY env_undecodable_secret = Some Lone_surrogates \<and>
   cb_connect env_undecodable_secret ''/api/v3/brokerage/accounts'' 50 (PStr []) world0 =
     (\<lparr>ticks = 1, sent = [], stdout = []\<rparr>, Inl UnicodeEncodeError) \<and>
   CB_SECRET_KEY env_empty_secret = Some (Str []) \<and>
   (\<exists>rq r. sent (fst (cb_connect env_empty_secret ''/api/v3/brokerage/accounts'' 50 (PStr [])
                        world0)) = [rq] \<and>
           map_of (headers rq) ''CB-ACCESS-SIGN'' =
             Some (Some (bytes_hex (hmac_sha256 []
                           (encode_utf8 ''1700000000GET/api/v3/brokerage/accounts'')))) \<and>
           snd (cb_connect env_empty_secret ''/api/v3/brokerage/accounts'' 50 (PStr []) world0) =
             Inr r)"
proof -
  have n: "CB_SECRET_KEY env_no_secret = None"
    by (simp add: env_no_secret_def example_env_def)
  have u: "CB_SECRET_KEY env_undecodable_secret = Some Lone_surrogates"
    by (simp add: env_undecodable_secret_def example_env_def)
  have k: "CB_SECRET_KEY env_empty_secret = Some (Str [])"
    by (simp add: env_empty_secret_def example_env_def)
  have t: "cb_timestamp env_empty_secret world0 = ''1700000000''"
    by (simp add: cb_timestamp_def env_empty_secret_def example_env_def world0_def
        str_int_def digits.simps digit_char_def)
  have m: "cb_message ''1700000000'' ''/api/v3/brokerage/accounts'' =
           ''1700000000GET/api/v3/brokerage/accounts''"
    by (simp add: cb_message_def)
  from cb_connect_raises_iff_secret_unset_or_undecodable
    [of env_no_secret "[]" "''/api/v3/brokerage/accounts''" 50 "PStr []" world0 "[]"] n
  have 1: "cb_connect env_no_secret ''/api/v3/brokerage/accounts'' 50 (PStr []) world0 =
           (\<lparr>ticks = 1, sent = [], stdout = []\<rparr>, Inl AttributeError)"
    by (simp add: world0_def)
  from cb_connect_raises_iff_secret_unset_or_undecodable
    [of env_undecodable_secret "[]" "''/api/v3/brokerage/accounts''" 50 "PStr []" world0 "[]"] u
  have 2: "cb_connect env_undecodable_secret ''/api/v3/brokerage/accounts'' 50 (PStr []) world0 =
           (\<lparr>ticks = 1, sent = [], stdout = []\<rparr>, Inl UnicodeEncodeError)"
    by (simp add: world0_def)
  from cb_connect_raises_iff_secret_unset_or_undecodable
    [of env_empty_secret "[]" "''/api/v3/brokerage/accounts''" 50 "PStr []" world0 "[]"] k
  have 3: "\<exists>rq r. sent (fst (cb_connect env_empty_secret ''/api/v3/brokerage/accounts'' 50
                                (PStr []) world0)) = sent world0 @ [rq] \<and>
           map_of (headers rq) ''CB-ACCESS-SIGN'' =
             Some (Some (bytes_hex (hmac_sha256 (encode_utf8 [])
                           (encode_utf8 (cb_message (cb_timestamp env_empty_secret world0)
                                           ''/api/v3/brokerage/accounts''))))) \<and>
           snd (cb_connect env_empty_secret ''/api/v3/brokerage/accounts'' 50 (PStr []) world0) =
             Inr r"
    by simp
  have e: "encode_utf8 [] = []" by (simp add: encode_utf8_def)
  have w: "sent world0 = []" by (simp add: world0_def)
  from 3 have 3: "\<exists>rq r. sent (fst (cb_connect env_empty_secret ''/api/v3/brokerage/accounts'' 50
                                (PStr []) world0)) = [rq] \<and>
           map_of (headers rq) ''CB-ACCESS-SIGN'' =
             Some (Some (bytes_hex (hmac_sha256 []
                           (encode_utf8 ''1700000000GET/api/v3/brokerage/accounts'')))) \<and>
           snd (cb_connect env_empty_secret ''/api/v3/brokerage/accounts'' 50 (PStr []) world0) =
             Inr r"
    unfolding t m e w append_Nil .
  from n u k 1 2 3 show ?thesis by (intro conjI)
qed

text \<open>C6: the code at a response with status 404. \<^verbatim>\<open>raise_for_status\<close> raises
  \<^verbatim>\<open>requests.exceptions.HTTPError\<close>, which \<^verbatim>\<open>except HTTPError\<close> (the class of
  \<^verbatim>\<open>urllib.error\<close>) does not catch: the generic handler prints it, and \<open>cb_connect\<close> returns
  \<^verbatim>\<open>None\<close>.\<close>

theorem cb_connect_status_404_is_other_error:
  "stdout (fst (cb_connect env_not_found ''/api/v3/brokerage/accounts'' 50 (PStr []) world0)) =
     [Other_error_occurred (Requests_HTTPError 404)] \<and>
   snd (cb_connect env_not_found ''/api/v3/brokerage/accounts'' 50 (PStr []) world0) = Inr None"
proof -
  have k: "CB_SECRET_KEY env_not_found = Some (Str ''secret'')"
    by (simp add: env_not_found_def example_env_def)
  note rq = cb_request_Some [OF k, of "''/api/v3/brokerage/accounts''" 50 "[]" world0]
  have g: "requests_get env_not_found (length (sent world0)) rq =
           Returns \<lparr>status_code = 404, response_text = NotJSON\<rparr>" for rq
    by (simp add: env_not_found_def example_env_def)
  have s: "raise_for_status \<lparr>status_code = 404, response_text = NotJSON\<rparr> \<noteq> Inr ()"
    by (simp add: raise_for_status_def)
  show ?thesis
    unfolding cb_connect_status [OF rq g s] by (simp add: world0_def)
qed

text \<open>The branch \<^verbatim>\<open>except HTTPError\<close> is taken only when \<^verbatim>\<open>requests.get\<close> itself raises
  \<^verbatim>\<open>urllib.error.HTTPError\<close>; no status of a response leads there.\<close>

lemma cb_connect_HTTP_error_branch:
  assumes "stdout (fst (cb_connect env p l c w)) = stdout w @ [HTTP_error_occurred e]"
  shows "\<exists>rq s. cb_request env p l c w = Inr rq \<and> e = Urllib_HTTPError s \<and>
                requests_get env (length (sent w)) rq = Raises e"
proof (cases "cb_request env p l c w")
  case (Inl x)
  with assms show ?thesis by (simp add: cb_connect_raise)
next
  case (Inr rq)
  show ?thesis
  proof (cases "requests_get env (length (sent w)) rq")
    case (Raises x)
    with assms Inr have "isinstance_HTTPError x" and "x = e"
      by (auto simp: cb_connect_Raises split: if_splits)
    then obtain s where "e = Urllib_HTTPError s" by (cases e) auto
    with Inr Raises \<open>x = e\<close> show ?thesis by blast
  next
    case (Returns r)
    with assms Inr show ?thesis
      by (cases "raise_for_status r = Inr ()") (simp_all add: cb_connect_Returns cb_connect_status)
  qed
qed

section \<open>Pages through the loop\<close>

lemma read_page_parses:
  "parses_to env f r pg \<Longrightarrow> read_page env f st (Some r) = Inr (after_page st pg)"
  by (auto simp: parses_to_def read_page_def after_page_def split: sum.splits)

lemma page_step_page:
  assumes "cb_request env p l (cursor st) w = Inr rq"
    and "requests_get env (length (sent w)) rq = Returns r"
    and "parses_to env f r pg"
  shows "page_step env p l f st w =
     (w\<lparr>ticks := Suc (ticks w), sent := sent w @ [rq],
        stdout := stdout w @ [Connection_successful (url rq)]\<rparr>, Inr (after_page st pg))"
proof -
  from assms(3) have "raise_for_status r = Inr ()" by (simp add: parses_to_def)
  from cb_connect_Returns [OF assms(1,2) this] read_page_parses [OF assms(3)]
  show ?thesis by (simp add: page_step_def)
qed




lemma cb_loop_stop:
  "\<not> truthy (has_next st) \<Longrightarrow> cb_loop env p l f st w = Some (w, Inr st)"
  by (subst cb_loop.simps) simp

lemma cb_loop_raise:
  "truthy (has_next st) \<Longrightarrow> page_step env p l f st w = (w', Inl e) \<Longrightarrow>
   cb_loop env p l f st w = Some (w', Inl e)"
  by (subst cb_loop.simps) simp

lemma cb_loop_next:
  "truthy (has_next st) \<Longrightarrow> page_step env p l f st w = (w', Inr st') \<Longrightarrow>
   cb_loop env p l f st w = cb_loop env p l f st' w'"
  by (subst cb_loop.simps) simp

lemma after_pages_snoc: "after_pages st (pgs @ [pg]) = after_page (after_pages st pgs) pg"
  by (simp add: after_pages_def)

lemma after_pages_Cons: "after_pages st (pg # pgs) = after_pages (after_page st pg) pgs"
  by (simp add: after_pages_def)

lemma lst_after_pages: "lst (after_pages st pgs) = lst st @ concat (map records pgs)"
  by (induction pgs arbitrary: st) (simp_all add: after_pages_def after_page_def)


lemma serves_append:
  "serves env f k (pgs @ pgs') = (serves env f k pgs \<and> serves env f (k + length pgs) pgs')"
  by (induction pgs arbitrary: k) auto

text \<open>While the pages report \<^verbatim>\<open>has_next = true\<close> the loop goes on: after the pages it is
  where a loop started in the state after them would be, one request per page has been
  issued, and their URLs are cursor-chained.\<close>

lemma cb_loop_after_pages:
  assumes k: "CB_SECRET_KEY env = Some (Str k)"
  shows "serves env f (length (sent w)) pgs \<Longrightarrow> list_all has_more pgs \<Longrightarrow>
         cursor st = PStr c \<Longrightarrow> truthy (has_next st) \<Longrightarrow>
         \<exists>w'. cb_loop env p l f st w = cb_loop env p l f (after_pages st pgs) w' \<and>
              truthy (has_next (after_pages st pgs)) \<and>
              length (sent w') = length (sent w) + length pgs \<and>
              map url (sent w') =
                map url (sent w) @
                chained_urls (''https://coinbase.com'' @ p @ ''?limit='' @ str_int l) c pgs"
proof (induction pgs arbitrary: st w c)
  case Nil
  then have "cb_loop env p l f st w = cb_loop env p l f (after_pages st []) w \<and>
             truthy (has_next (after_pages st [])) \<and>
             length (sent w) = length (sent w) + length ([] :: page list) \<and>
             map url (sent w) =
               map url (sent w) @
               chained_urls (''https://coinbase.com'' @ p @ ''?limit='' @ str_int l) c []"
    by (simp add: after_pages_def)
  then show ?case by blast
next
  case (Cons pg pgs)
  from Cons.prems(1) obtain r where r: "parses_to env f r pg"
    and g: "\<And>rq. requests_get env (length (sent w)) rq = Returns r"
    and rest: "serves env f (Suc (length (sent w))) pgs"
    by auto
  let ?rq = "\<lparr>url = ''https://coinbase.com'' @ p @ ''?limit='' @ str_int l @
                     (if c = [] then [] else ''&cursor='' @ c),
              headers = cb_headers (hmac_sha256 (encode_utf8 k)
                                      (encode_utf8 (cb_message (cb_timestamp env w) p)))
                          (CB_API_KEY env) (cb_timestamp env w)\<rparr>"
  let ?w1 = "w\<lparr>ticks := Suc (ticks w), sent := sent w @ [?rq],
               stdout := stdout w @ [Connection_successful (url ?rq)]\<rparr>"
  have rq: "cb_request env p l (cursor st) w = Inr ?rq"
    using Cons.prems(3) by (simp add: cb_request_Some [OF k])
  have step: "page_step env p l f st w = (?w1, Inr (after_page st pg))"
    by (rule page_step_page [OF rq g r])
  have more: "truthy (has_next (after_page st pg))"
    using Cons.prems(2) by (simp add: after_page_def)
  have cur: "cursor (after_page st pg) = PStr (next_cursor pg)"
    by (simp add: after_page_def)
  have srv: "serves env f (length (sent ?w1)) pgs"
    using rest by simp
  from Cons.prems(2) have all: "list_all has_more pgs" by simp
  from Cons.IH [OF srv all cur more] obtain w' where
    w': "cb_loop env p l f (after_page st pg) ?w1 =
           cb_loop env p l f (after_pages (after_page st pg) pgs) w'"
      "truthy (has_next (after_pages (after_page st pg) pgs))"
      "length (sent w') = length (sent ?w1) + length pgs"
      "map url (sent w') =
         map url (sent ?w1) @
         chained_urls (''https://coinbase.com'' @ p @ ''?limit='' @ str_int l) (next_cursor pg) pgs"
    by blast
  have "cb_loop env p l f st w = cb_loop env p l f (after_pages st (pg # pgs)) w'"
    using cb_loop_next [OF Cons.prems(4) step] w'(1) by (simp add: after_pages_Cons)
  moreover have "truthy (has_next (after_pages st (pg # pgs)))"
    using w'(2) by (simp add: after_pages_Cons)
  moreover have "length (sent w') = length (sent w) + length (pg # pgs)"
    using w'(3) by simp
  moreover have "map url (sent w') =
      map url (sent w) @
      chained_urls (''https://coinbase.com'' @ p @ ''?limit='' @ str_int l) c (pg # pgs)"
    using w'(4) by simp
  ultimately show ?case by blast
qed

section \<open>Running the functions on the example environments\<close>

lemmas run_simps =
  page_step_def cb_connect_def cb_request_def cb_signature_def cb_url_def cb_headers_def
  cb_timestamp_def raise_for_status_def read_page_def frame_of_dicts_def nested_to_record_def
  finish_def set_columns_def DataFrame_def Let_def loop_init_def world0_def str_int_def
  digits.simps digit_char_def example_env_def ok_page_def account_def

section \<open>Aggregation and cursor chaining\<close>

lemma cursor_after_pages_last:
  "cursor st = PStr c \<Longrightarrow>
   cursor (after_pages st pgs) = PStr (if pgs = [] then c else next_cursor (last pgs))"
  by (induction pgs arbitrary: st c) (simp_all add: after_pages_def after_page_def)

lemma chained_urls_snoc:
  "chained_urls b c (pgs @ [pg]) =
   chained_urls b c pgs @
   [b @ (if (if pgs = [] then c else next_cursor (last pgs)) = [] then []
         else ''&cursor='' @ (if pgs = [] then c else next_cursor (last pgs)))]"
  by (induction pgs arbitrary: c) auto

text \<open>For pages \<open>pre @ [fin]\<close> of which only the last reports \<^verbatim>\<open>has_next = false\<close>, the loop
  ends after one request per page; the requests are cursor-chained, the first without a
  cursor; and what is handed to \<^verbatim>\<open>pd.DataFrame\<close> is the concatenation of the rows of the
  pages in order. The frame is then labelled with the columns of the last page.\<close>

lemma cb_get_all_pages:
  assumes k: "CB_SECRET_KEY env = Some (Str k)"
    and srv: "serves env f (length (sent w)) (pre @ [fin])"
    and pre: "list_all has_more pre"
    and fin: "\<not> has_more fin"
  shows "\<exists>w'. cb_get_all env p l f w =
                Some (w', set_columns (DataFrame (concat (map records (pre @ [fin])))) (labels fin)) \<and>
              length (sent w') = length (sent w) + length pre + 1 \<and>
              map url (sent w') =
                map url (sent w) @
                chained_urls (''https://coinbase.com'' @ p @ ''?limit='' @ str_int l) [] (pre @ [fin])"
proof -
  let ?b = "''https://coinbase.com'' @ p @ ''?limit='' @ str_int l"
  let ?st = "after_pages loop_init pre"
  from srv have s1: "serves env f (length (sent w)) pre"
    and s2: "serves env f (length (sent w) + length pre) [fin]"
    by (simp_all add: serves_append)
  have c0: "cursor loop_init = PStr []" and t0: "truthy (has_next loop_init)"
    by (simp_all add: loop_init_def)
  from cb_loop_after_pages [OF k s1 pre c0 t0, of p l] obtain w1 where
    w1: "cb_loop env p l f loop_init w = cb_loop env p l f ?st w1"
      "truthy (has_next ?st)"
      "length (sent w1) = length (sent w) + length pre"
      "map url (sent w1) = map url (sent w) @ chained_urls ?b [] pre"
    by blast
  let ?c = "if pre = [] then [] else next_cursor (last pre)"
  have cur: "cursor ?st = PStr ?c"
    using cursor_after_pages_last [OF c0, of pre] by simp
  from s2 w1(3) obtain r where r: "parses_to env f r fin"
    and g: "\<And>rq. requests_get env (length (sent w1)) rq = Returns r"
    by auto
  let ?rq = "\<lparr>url = ?b @ (if ?c = [] then [] else ''&cursor='' @ ?c),
              headers = cb_headers (hmac_sha256 (encode_utf8 k)
                                      (encode_utf8 (cb_message (cb_timestamp env w1) p)))
                          (CB_API_KEY env) (cb_timestamp env w1)\<rparr>"
  let ?w2 = "w1\<lparr>ticks := Suc (ticks w1), sent := sent w1 @ [?rq],
                stdout := stdout w1 @ [Connection_successful (url ?rq)]\<rparr>"
  have rq: "cb_request env p l (cursor ?st) w1 = Inr ?rq"
    unfolding cur by (simp add: cb_request_Some [OF k])
  have step: "page_step env p l f ?st w1 = (?w2, Inr (after_page ?st fin))"
    by (rule page_step_page [OF rq g r])
  have stop: "\<not> truthy (has_next (after_page ?st fin))"
    using fin by (simp add: after_page_def)
  have "cb_loop env p l f loop_init w = Some (?w2, Inr (after_page ?st fin))"
    using w1(1) cb_loop_next [OF w1(2) step] cb_loop_stop [OF stop] by simp
  moreover have "finish (after_page ?st fin) =
                 set_columns (DataFrame (concat (map records (pre @ [fin])))) (labels fin)"
    by (simp add: finish_def after_page_def lst_after_pages loop_init_def)
  ultimately have "cb_get_all env p l f w =
      Some (?w2, set_columns (DataFrame (concat (map records (pre @ [fin])))) (labels fin))"
    by (simp add: cb_get_all_def)
  moreover have "length (sent ?w2) = length (sent w) + length pre + 1"
    using w1(3) by simp
  moreover have "map url (sent ?w2) = map url (sent w) @ chained_urls ?b [] (pre @ [fin])"
    using w1(4) by (simp add: chained_urls_snoc)
  ultimately show ?thesis by blast
qed

text \<open>The labelling succeeds when every row is as long as the list of labels.\<close>

lemma set_columns_DataFrame:
  assumes "rs \<noteq> []" and "\<And>r. r \<in> set rs \<Longrightarrow> length r = length ls"
  shows "set_columns (DataFrame rs) ls = Inr \<lparr>columns = ls, rows = rs\<rparr>"
proof -
  have w: "foldr max (map length rs) 0 = length ls"
    using assms
  proof (induction rs)
    case Nil
    then show ?case by simp
  next
    case (Cons r rs)
    show ?case
    proof (cases "rs = []")
      case True
      with Cons.prems show ?thesis by simp
    next
      case False
      with Cons have "foldr max (map length rs) 0 = length ls" by simp
      with Cons.prems show ?thesis by simp
    qed
  qed
  have "map (\<lambda>r. r @ replicate (length ls - length r) Missing) rs = rs"
    using assms(2) by (induction rs) simp_all
  with w show ?thesis by (simp add: set_columns_def DataFrame_def Let_def)
qed

text \<open>So when all rows of all pages are as wide as the labels of the last page, and there is
  a row, the function returns the concatenation of the record rows of the pages.\<close>

lemma cb_get_all_returns_concatenation:
  assumes k: "CB_SECRET_KEY env = Some (Str k)"
    and srv: "serves env f (length (sent w)) (pre @ [fin])"
    and pre: "list_all has_more pre"
    and fin: "\<not> has_more fin"
    and rows: "concat (map records (pre @ [fin])) \<noteq> []"
    and wide: "\<And>r. r \<in> set (concat (map records (pre @ [fin]))) \<Longrightarrow> length r = length (labels fin)"
  shows "\<exists>w'. cb_get_all env p l f w =
                Some (w', Inr \<lparr>columns = labels fin,
                               rows = concat (map records (pre @ [fin]))\<rparr>) \<and>
              map url (sent w') =
                map url (sent w) @
                chained_urls (''https://coinbase.com'' @ p @ ''?limit='' @ str_int l) [] (pre @ [fin])"
  using cb_get_all_pages [OF k srv pre fin, of p l] set_columns_DataFrame [OF rows wide]
  by auto

text \<open>C1: the code on two pages of accounts of which the second, last one is empty, and
  on two pages of orders of which the last has fewer columns than the first (a limit
  order, then a market order). In both runs the two requests are the cursor-chained ones,
  and the rows of the first page have been accumulated; then line 166 (186) labels the
  frame of all rows with the columns of the last page, of which there are too few, and
  pandas raises \<^verbatim>\<open>ValueError\<close>. Nothing is returned.\<close>

theorem cb_get_all_fails_on_narrower_last_page:
  "map_option (\<lambda>(w, r). (map url (sent w), r))
     (cb_get_all_accounts env_empty_last_page world0) =
   Some ([''https://coinbase.com/api/v3/brokerage/accounts?limit=50'',
          ''https://coinbase.com/api/v3/brokerage/accounts?limit=50&cursor=c1''],
         Inl ValueError) \<and>
   map_option (\<lambda>(w, r). (map url (sent w), r)) (cb_get_all_orders env_mixed_orders world0) =
   Some ([''https://coinbase.com/api/v3/brokerage/orders/historical/batch?limit=100'',
          ''https://coinbase.com/api/v3/brokerage/orders/historical/batch?limit=100&cursor=c1''],
         Inl ValueError)"
proof -
  have "map_option (\<lambda>(w, r). (map url (sent w), r))
          (cb_get_all_accounts env_empty_last_page world0) =
        Some ([''https://coinbase.com/api/v3/brokerage/accounts?limit=50'',
               ''https://coinbase.com/api/v3/brokerage/accounts?limit=50&cursor=c1''],
              Inl ValueError)"
    by (simp add: cb_get_all_accounts_def cb_get_all_def cb_loop_eq_fuel [of "Suc (Suc (Suc 0))"]
        env_empty_last_page_def run_simps)
  moreover have "map_option (\<lambda>(w, r). (map url (sent w), r))
          (cb_get_all_orders env_mixed_orders world0) =
        Some ([''https://coinbase.com/api/v3/brokerage/orders/historical/batch?limit=100'',
               ''https://coinbase.com/api/v3/brokerage/orders/historical/batch?limit=100&cursor=c1''],
              Inl ValueError)"
    by (simp add: cb_get_all_orders_def cb_get_all_def cb_loop_eq_fuel [of "Suc (Suc (Suc 0))"]
        env_mixed_orders_def limit_order_def market_order_def dict_update_def AList.delete_eq
        run_simps)
  ultimately show ?thesis by blast
qed

text \<open>For comparison, two pages of one account each: the rows of both, in order.\<close>

lemma cb_get_all_accounts_two_pages:
  "map_option (\<lambda>(w, r). (map url (sent w), r)) (cb_get_all_accounts env_two_pages world0) =
   Some ([''https://coinbase.com/api/v3/brokerage/accounts?limit=50'',
          ''https://coinbase.com/api/v3/brokerage/accounts?limit=50&cursor=c1''],
         Inr \<lparr>columns = [Name ''uuid''],
              rows = [[Val (PStr ''A'')], [Val (PStr ''B'')]]\<rparr>)"
  by (simp add: cb_get_all_accounts_def cb_get_all_def cb_loop_eq_fuel [of "Suc (Suc (Suc 0))"]
      env_two_pages_def run_simps)

section \<open>Termination\<close>

lemma cb_loop_fuel_always_more:
  assumes k: "CB_SECRET_KEY env = Some (Str k)" and am: "always_more env f"
  shows "truthy (has_next st) \<Longrightarrow> cursor st = PStr c \<Longrightarrow>
         cb_loop_fuel n env p l f st w = None"
proof (induction n arbitrary: st w c)
  case 0
  show ?case by simp
next
  case (Suc n)
  let ?rq = "\<lparr>url = ''https://coinbase.com'' @ p @ ''?limit='' @ str_int l @
                     (if c = [] then [] else ''&cursor='' @ c),
              headers = cb_headers (hmac_sha256 (encode_utf8 k)
                                      (encode_utf8 (cb_message (cb_timestamp env w) p)))
                          (CB_API_KEY env) (cb_timestamp env w)\<rparr>"
  have rq: "cb_request env p l (cursor st) w = Inr ?rq"
    using Suc.prems(2) by (simp add: cb_request_Some [OF k])
  from am obtain r pg where g: "requests_get env (length (sent w)) ?rq = Returns r"
    and r: "parses_to env f r pg" and m: "has_more pg"
    unfolding always_more_def by blast
  note step = page_step_page [OF rq g r]
  have "truthy (has_next (after_page st pg))"
    and "cursor (after_page st pg) = PStr (next_cursor pg)"
    using m by (simp_all add: after_page_def)
  from Suc.IH [OF this] Suc.prems(1) step show ?case by simp
qed

lemma cb_loop_always_more:
  assumes "CB_SECRET_KEY env = Some (Str k)" and "always_more env f"
  shows "cb_loop env p l f loop_init w = None"
proof (rule cb_loop_never)
  fix n
  show "cb_loop_fuel n env p l f loop_init w = None"
    by (rule cb_loop_fuel_always_more [OF assms, of _ "[]"]) (simp_all add: loop_init_def)
qed

lemma always_more_env_forever: "always_more env_forever ''accounts''"
proof -
  have "parses_to env_forever ''accounts''
          \<lparr>status_code = 200,
           response_text = JSON (PDict [(''accounts'', PList []), (''has_next'', PBool True),
                                        (''cursor'', PStr ''c'')])\<rparr>
          \<lparr>records = [], labels = [], has_more = True, next_cursor = ''c''\<rparr>"
    by (simp add: parses_to_def raise_for_status_def frame_of_dicts_def)
  then show ?thesis
    unfolding always_more_def env_forever_def example_env_def ok_page_def
    by (metis env.select_convs(4) page.select_convs(3))
qed

text \<open>C2, as stated, fails: against a server that reports \<^verbatim>\<open>has_next = true\<close> on every
  page, \<open>cb_get_all_accounts\<close> never returns.\<close>

theorem cb_get_all_accounts_loops_forever:
  "cb_get_all_accounts env_forever world0 = None"
proof -
  have "CB_SECRET_KEY env_forever = Some (Str ''secret'')"
    by (simp add: env_forever_def example_env_def)
  from cb_loop_always_more [OF this always_more_env_forever] show ?thesis
    by (simp add: cb_get_all_accounts_def cb_get_all_def)
qed

text \<open>C2, amended. Nothing bounds the loop, and no error stands for a limit on pages. The
  loop returns exactly when finitely many iterations bring it to a page whose
  \<^verbatim>\<open>has_next\<close> is false or to an exception. Against a server that answers every request
  with a well-formed page reporting \<^verbatim>\<open>has_next = true\<close>, and with a secret that can be
  encoded, the function never returns.\<close>

theorem cb_get_all_returns_iff_loop_ends:
  "((\<exists>y. cb_loop env p l f st w = Some y) =
    (\<exists>n y. cb_loop_fuel n env p l f st w = Some y)) \<and>
   ((\<exists>k. CB_SECRET_KEY env = Some (Str k)) \<and> always_more env f \<longrightarrow>
      cb_get_all env p l f w = None)"
proof -
  have "(\<exists>y. cb_loop env p l f st w = Some y) = (\<exists>n y. cb_loop_fuel n env p l f st w = Some y)"
    using cb_loop_fuel_sound cb_loop_fuel_complete by blast
  moreover have "cb_get_all env p l f w = None"
    if "\<exists>k. CB_SECRET_KEY env = Some (Str k)" and "always_more env f"
  proof -
    from that(1) obtain k where "CB_SECRET_KEY env = Some (Str k)" by auto
    from cb_loop_always_more [OF this that(2)] show ?thesis by (simp add: cb_get_all_def)
  qed
  ultimately show ?thesis by blast
qed

theorem cb_get_all_returns_iff_loop_ends_witness:
  "CB_SECRET_KEY env_forever = Some (Str ''secret'') \<and> always_more env_forever ''accounts'' \<and>
   cb_get_all env_forever ''/api/v3/brokerage/accounts'' 50 ''accounts'' world0 = None \<and>
   cb_loop env_two_pages ''/api/v3/brokerage/accounts'' 50 ''accounts'' loop_init world0 \<noteq> None"
proof -
  have k: "CB_SECRET_KEY env_forever = Some (Str ''secret'')"
    by (simp add: env_forever_def example_env_def)
  have "cb_loop_fuel (Suc (Suc (Suc 0))) env_two_pages ''/api/v3/brokerage/accounts'' 50
          ''accounts'' loop_init world0 \<noteq> None"
    by (simp add: env_two_pages_def run_simps)
  then have "\<exists>n y. cb_loop_fuel n env_two_pages ''/api/v3/brokerage/accounts'' 50
                     ''accounts'' loop_init world0 = Some y"
    by blast
  with cb_get_all_returns_iff_loop_ends
    [of env_two_pages "''/api/v3/brokerage/accounts''" 50 "''accounts''" loop_init world0]
  have "cb_loop env_two_pages ''/api/v3/brokerage/accounts'' 50 ''accounts'' loop_init world0
          \<noteq> None"
    by auto
  with cb_get_all_returns_iff_loop_ends
    [of env_forever "''/api/v3/brokerage/accounts''" 50 "''accounts''" loop_init world0]
    k always_more_env_forever
  show ?thesis by blast
qed

section \<open>Failures in the middle of a run\<close>




section \<open>Malformed pages\<close>

lemma read_page_dict_malformed:
  assumes "json_loads (response_text r) = Inr (PDict d)"
    and "lacks_array f (PDict d)" and "\<not> nullish_records f (PDict d)"
  shows "\<exists>e. is_parse_error e \<and> read_page env f st (Some r) = Inl e"
proof -
  from assms(2,3) have bad: "json_normalize (pandas_other env) (PDict d) f = Inl (KeyError f) \<or>
                             json_normalize (pandas_other env) (PDict d) f = Inl TypeError"
    by (auto simp: lacks_array_def nullish_records_def split: option.splits pyval.splits
        pyfloat.splits)
  show ?thesis
  proof (cases "map_of d ''has_next''")
    case None
    with assms(1) show ?thesis by (simp add: read_page_def)
  next
    case (Some hn)
    note hn = this
    show ?thesis
    proof (cases "map_of d ''cursor''")
      case None
      with assms(1) hn show ?thesis by (simp add: read_page_def)
    next
      case (Some c)
      with assms(1) hn bad show ?thesis by (auto simp: read_page_def)
    qed
  qed
qed

lemma json_loads_error:
  "json_loads b = Inl e \<Longrightarrow> is_parse_error e"
  by (cases b rule: json_loads.cases) auto

lemma read_page_malformed:
  assumes "malformed_not_nullish f (response_text r)"
  shows "\<exists>e. is_parse_error e \<and> read_page env f st (Some r) = Inl e"
proof (cases "json_loads (response_text r)")
  case (Inl e)
  with json_loads_error [OF Inl] show ?thesis by (simp add: read_page_def)
next
  case (Inr v)
  show ?thesis
  proof (cases "\<exists>d. v = PDict d")
    case False
    then have "getitem v ''has_next'' = Inl TypeError" by (cases v) simp_all
    with Inr show ?thesis by (simp add: read_page_def)
  next
    case True
    then obtain d where d: "v = PDict d" by blast
    from assms Inr d have "lacks_array f (PDict d)" and "\<not> nullish_records f (PDict d)"
      by (simp_all add: malformed_not_nullish_def)
    from read_page_dict_malformed [OF Inr [unfolded d] this] show ?thesis .
  qed
qed

text \<open>C7, as stated, fails, and in two ways. Null under the record-array field is a value
  that is not an array, yet pandas reads it as no records, and the function returns an
  empty frame as if there were no data. And a body that holds the constant \<^verbatim>\<open>NaN\<close> is not
  valid JSON, yet \<^verbatim>\<open>json.loads\<close> accepts it; with \<^verbatim>\<open>NaN\<close> under the record-array field the
  function again returns an empty frame.\<close>

theorem cb_get_all_accounts_null_or_nan_records:
  "spec_malformed ''accounts''
     (JSON (PDict [(''accounts'', PNone), (''has_next'', PBool False), (''cursor'', PStr [])])) \<and>
   requests_get env_null_records 0 \<lparr>url = [], headers = []\<rparr> =
     Returns \<lparr>status_code = 200,
              response_text = JSON (PDict [(''accounts'', PNone), (''has_next'', PBool False),
                                           (''cursor'', PStr [])])\<rparr> \<and>
   map_option (\<lambda>(w, r). (map url (sent w), r)) (cb_get_all_accounts env_null_records world0) =
     Some ([''https://coinbase.com/api/v3/brokerage/accounts?limit=50''],
           Inr \<lparr>columns = [], rows = []\<rparr>) \<and>
   spec_malformed ''accounts''
     (NonStandard (PDict [(''accounts'', PFloat NaN), (''has_next'', PBool False),
                          (''cursor'', PStr [])])) \<and>
   requests_get env_nan_records 0 \<lparr>url = [], headers = []\<rparr> =
     Returns \<lparr>status_code = 200,
              response_text = NonStandard (PDict [(''accounts'', PFloat NaN),
                                                  (''has_next'', PBool False),
                                                  (''cursor'', PStr [])])\<rparr> \<and>
   map_option (\<lambda>(w, r). (map url (sent w), r)) (cb_get_all_accounts env_nan_records world0) =
     Some ([''https://coinbase.com/api/v3/brokerage/accounts?limit=50''],
           Inr \<lparr>columns = [], rows = []\<rparr>)"
proof -
  have "spec_malformed ''accounts''
     (JSON (PDict [(''accounts'', PNone), (''has_next'', PBool False), (''cursor'', PStr [])]))"
    and "spec_malformed ''accounts''
     (NonStandard (PDict [(''accounts'', PFloat NaN), (''has_next'', PBool False),
                          (''cursor'', PStr [])]))"
    by (simp_all add: spec_malformed_def lacks_array_def)
  moreover have "requests_get env_null_records 0 \<lparr>url = [], headers = []\<rparr> =
     Returns \<lparr>status_code = 200,
              response_text = JSON (PDict [(''accounts'', PNone), (''has_next'', PBool False),
                                           (''cursor'', PStr [])])\<rparr>"
    by (simp add: env_null_records_def example_env_def ok_page_def)
  moreover have "requests_get env_nan_records 0 \<lparr>url = [], headers = []\<rparr> =
     Returns \<lparr>status_code = 200,
              response_text = NonStandard (PDict [(''accounts'', PFloat NaN),
                                                  (''has_next'', PBool False),
                                                  (''cursor'', PStr [])])\<rparr>"
    by (simp add: env_nan_records_def example_env_def)
  moreover have "map_option (\<lambda>(w, r). (map url (sent w), r))
       (cb_get_all_accounts env_null_records world0) =
     Some ([''https://coinbase.com/api/v3/brokerage/accounts?limit=50''],
           Inr \<lparr>columns = [], rows = []\<rparr>)"
    by (simp add: cb_get_all_accounts_def cb_get_all_def cb_loop_eq_fuel [of "Suc (Suc 0)"]
        env_null_records_def run_simps)
  moreover have "map_option (\<lambda>(w, r). (map url (sent w), r))
       (cb_get_all_accounts env_nan_records world0) =
     Some ([''https://coinbase.com/api/v3/brokerage/accounts?limit=50''],
           Inr \<lparr>columns = [], rows = []\<rparr>)"
    by (simp add: cb_get_all_accounts_def cb_get_all_def cb_loop_eq_fuel [of "Suc (Suc 0)"]
        env_nan_records_def run_simps)
  ultimately show ?thesis by (intro conjI)
qed

text \<open>C7, amended. When \<^verbatim>\<open>json.loads\<close> raises on the body of a page, or the value it gives
  is not an object, or lacks the record-array field, or holds there a value that is neither
  an array nor null nor NaN, the iteration raises: \<^verbatim>\<open>JSONDecodeError\<close> (or \<^verbatim>\<open>RecursionError\<close>
  or \<^verbatim>\<open>ValueError\<close> at a limit of the interpreter), \<^verbatim>\<open>KeyError\<close> or \<^verbatim>\<open>TypeError\<close>. The loop
  ends with that exception right after the request of this page: no frame is returned and
  no further request is issued. This covers the bodies that \<^verbatim>\<open>json.loads\<close> accepts although
  they are not valid JSON: they are read by their value like any other. Null and NaN
  under the field are not covered: they are read as an empty array.\<close>

theorem cb_loop_malformed_page_raises:
  assumes "truthy (has_next st)"
    and "cb_connect env p l (cursor st) w = (w', Inr (Some r))"
    and "malformed_not_nullish f (response_text r)"
  shows "\<exists>e. is_parse_error e \<and> cb_loop env p l f st w = Some (w', Inl e) \<and>
             (st = loop_init \<longrightarrow> cb_get_all env p l f w = Some (w', Inl e))"
proof -
  from read_page_malformed [OF assms(3), of env st] obtain e where
    e: "is_parse_error e" "read_page env f st (Some r) = Inl e"
    by blast
  with assms(2) have "page_step env p l f st w = (w', Inl e)"
    by (simp add: page_step_def)
  from cb_loop_raise [OF assms(1) this] have "cb_loop env p l f st w = Some (w', Inl e)" .
  with e(1) show ?thesis by (auto simp: cb_get_all_def)
qed

theorem cb_loop_malformed_page_raises_witness:
  "truthy (has_next loop_init) \<and>
   cb_connect env_no_records_field ''/api/v3/brokerage/accounts'' 50 (cursor loop_init) world0 =
     (\<lparr>ticks = 1,
       sent = [\<lparr>url = ''https://coinbase.com/api/v3/brokerage/accounts?limit=50'',
                headers = cb_headers
                  (hmac_sha256 (encode_utf8 ''secret'')
                     (encode_utf8 ''1700000000GET/api/v3/brokerage/accounts''))
                  (Some ''key'') ''1700000000''\<rparr>],
       stdout = [Connection_successful
                   ''https://coinbase.com/api/v3/brokerage/accounts?limit=50'']\<rparr>,
      Inr (Some \<lparr>status_code = 200,
                 response_text = JSON (PDict [(''has_next'', PBool False),
                                              (''cursor'', PStr [])])\<rparr>)) \<and>
   malformed_not_nullish ''accounts''
     (JSON (PDict [(''has_next'', PBool False), (''cursor'', PStr [])])) \<and>
   map_option snd
     (cb_get_all env_no_records_field ''/api/v3/brokerage/accounts'' 50 ''accounts'' world0) =
     Some (Inl (KeyError ''accounts''))"
proof -
  let ?r = "\<lparr>status_code = 200,
             response_text = JSON (PDict [(''has_next'', PBool False), (''cursor'', PStr [])])\<rparr>"
  let ?w = "\<lparr>ticks = 1,
       sent = [\<lparr>url = ''https://coinbase.com/api/v3/brokerage/accounts?limit=50'',
                headers = cb_headers
                  (hmac_sha256 (encode_utf8 ''secret'')
                     (encode_utf8 ''1700000000GET/api/v3/brokerage/accounts''))
                  (Some ''key'') ''1700000000''\<rparr>],
       stdout = [Connection_successful
                   ''https://coinbase.com/api/v3/brokerage/accounts?limit=50'']\<rparr>"
  have t: "truthy (has_next loop_init)"
    by (simp add: loop_init_def)
  have c: "cb_connect env_no_records_field ''/api/v3/brokerage/accounts'' 50 (cursor loop_init)
             world0 = (?w, Inr (Some ?r))"
    by (simp add: env_no_records_field_def cb_connect_def cb_request_def cb_signature_def
        cb_url_def cb_timestamp_def cb_message_eq raise_for_status_def Let_def loop_init_def
        world0_def str_int_def digits.simps digit_char_def example_env_def)
  have m: "malformed_not_nullish ''accounts'' (response_text ?r)"
    by (simp add: malformed_not_nullish_def lacks_array_def nullish_records_def)
  from cb_loop_malformed_page_raises [OF t c m] obtain e where
    e: "is_parse_error e"
      "cb_get_all env_no_records_field ''/api/v3/brokerage/accounts'' 50 ''accounts'' world0 =
         Some (?w, Inl e)"
    by blast
  have "map_option snd
          (cb_get_all env_no_records_field ''/api/v3/brokerage/accounts'' 50 ''accounts'' world0) =
        Some (Inl (KeyError ''accounts''))"
    by (simp add: cb_get_all_def cb_loop_eq_fuel [of "Suc (Suc 0)"]
        env_no_records_field_def run_simps)
  with t c m e show ?thesis by simp
qed

section \<open>An empty cursor with has_next = true\<close>




end
